theory Spec2Isabelle
  imports Main
begin

section \<open>The order barcode application (main.js)\<close>

text \<open>
  The script keeps one global \<^verbatim>\<open>state\<close> object, a module-level flag
  \<^verbatim>\<open>quaggaActive\<close>, the browser's \<^verbatim>\<open>localStorage\<close> and the current
  content of the \<^verbatim>\<open>#app\<close> element. Every function of the script is modelled as a
  function from the application state to the application state. Order objects live in an
  explicit store, because \<^verbatim>\<open>state.currentOrder\<close> is a reference to one of the objects
  of \<^verbatim>\<open>state.db.orders\<close> and is mutated through that reference.
\<close>

subsection \<open>Strings\<close>

text \<open>
  A string is the list of the UTF-8 bytes of the script's string.
  \<^verbatim>\<open>String.prototype.trim\<close> removes from both ends the characters of the ECMAScript
  productions WhiteSpace (U+0009, U+000B, U+000C, U+0020, U+00A0, U+FEFF and the space
  separators U+1680, U+2000 to U+200A, U+202F, U+205F, U+3000) and LineTerminator
  (U+000A, U+000D, U+2028, U+2029). \<open>whiteSpace\<close> lists their encodings, of one, two or
  three bytes. In UTF-8 no encoding of a character ends with the encoding of another, so
  a string ends with one of these byte sequences exactly when its last character is one of
  these characters.
\<close>

definition whiteSpace :: "string list" where
  "whiteSpace =
     [[CHR 0x09], [CHR 0x0A], [CHR 0x0B], [CHR 0x0C], [CHR 0x0D], [CHR 0x20],
      [CHR 0xC2, CHR 0xA0],
      [CHR 0xE1, CHR 0x9A, CHR 0x80],
      [CHR 0xE2, CHR 0x80, CHR 0x80], [CHR 0xE2, CHR 0x80, CHR 0x81],
      [CHR 0xE2, CHR 0x80, CHR 0x82], [CHR 0xE2, CHR 0x80, CHR 0x83],
      [CHR 0xE2, CHR 0x80, CHR 0x84], [CHR 0xE2, CHR 0x80, CHR 0x85],
      [CHR 0xE2, CHR 0x80, CHR 0x86], [CHR 0xE2, CHR 0x80, CHR 0x87],
      [CHR 0xE2, CHR 0x80, CHR 0x88], [CHR 0xE2, CHR 0x80, CHR 0x89],
      [CHR 0xE2, CHR 0x80, CHR 0x8A],
      [CHR 0xE2, CHR 0x80, CHR 0xA8], [CHR 0xE2, CHR 0x80, CHR 0xA9],
      [CHR 0xE2, CHR 0x80, CHR 0xAF],
      [CHR 0xE2, CHR 0x81, CHR 0x9F],
      [CHR 0xE3, CHR 0x80, CHR 0x80],
      [CHR 0xEF, CHR 0xBB, CHR 0xBF]]"

definition isWhiteSpace :: "string \<Rightarrow> bool" where
  "isWhiteSpace w \<longleftrightarrow> w \<in> set whiteSpace"

fun trimStart :: "string \<Rightarrow> string" where
  "trimStart (a # b # c # s) =
     (if isWhiteSpace [a] then trimStart (b # c # s)
      else if isWhiteSpace [a, b] then trimStart (c # s)
      else if isWhiteSpace [a, b, c] then trimStart s
      else a # b # c # s)"
| "trimStart [a, b] =
     (if isWhiteSpace [a] then trimStart [b]
      else if isWhiteSpace [a, b] then []
      else [a, b])"
| "trimStart [a] = (if isWhiteSpace [a] then [] else [a])"
| "trimStart [] = []"

text \<open>The same from the other end, on the reversed string.\<close>

fun trimEndRev :: "string \<Rightarrow> string" where
  "trimEndRev (a # b # c # s) =
     (if isWhiteSpace [a] then trimEndRev (b # c # s)
      else if isWhiteSpace [b, a] then trimEndRev (c # s)
      else if isWhiteSpace [c, b, a] then trimEndRev s
      else a # b # c # s)"
| "trimEndRev [a, b] =
     (if isWhiteSpace [a] then trimEndRev [b]
      else if isWhiteSpace [b, a] then []
      else [a, b])"
| "trimEndRev [a] = (if isWhiteSpace [a] then [] else [a])"
| "trimEndRev [] = []"

definition trimEnd :: "string \<Rightarrow> string" where
  "trimEnd s = rev (trimEndRev (rev s))"

definition trim :: "string \<Rightarrow> string" where
  "trim s = trimEnd (trimStart s)"

text \<open>A JavaScript value that is a string or \<^verbatim>\<open>undefined\<close>/\<^verbatim>\<open>null\<close> is truthy
  when it is a non-empty string.\<close>

fun truthy :: "string option \<Rightarrow> bool" where
  "truthy None = False"
| "truthy (Some v) = (v \<noteq> [])"

subsection \<open>Data model\<close>

datatype status = Pending | Packed

record order =
  orderId :: string
  parts :: "string list"
  customer :: "string option"
  project :: "string option"
  supplyDate :: "string option"
  status :: status
  packedAt :: "string option"
  packedBy :: "string option"

text \<open>The two closures handed to \<^verbatim>\<open>startScanner\<close>: the one of \<^verbatim>\<open>showOrderScan\<close>
  calls \<^verbatim>\<open>handleOrderDetected\<close>, the one of \<^verbatim>\<open>showPartScan\<close> calls
  \<^verbatim>\<open>handlePartDetected\<close>.\<close>

datatype callback = OrderCallback | PartCallback

text \<open>What \<^verbatim>\<open>#app\<close> shows. The summary card carries the \<^verbatim>\<open>disabled\<close> attribute of
  its \<^verbatim>\<open>markPackedBtn\<close>. \<open>EmptyScreen\<close> is \<^verbatim>\<open>#app\<close> after \<^verbatim>\<open>clearApp\<close> when the
  function that called it throws before it attaches its card.\<close>

datatype screen =
  LoginScreen | HomeScreen | ImportScreen | OrderScanScreen | PartScanScreen
  | SummaryScreen bool | DatabaseScreen | EmptyScreen

text \<open>The calls of \<^verbatim>\<open>alert\<close>, one constructor for each message of the script.\<close>

datatype alert =
  EnterUserName
  | SampleLoaded
  | DatabaseLoaded
  | CsvReadError string
  | EnterOrderNumber
  | OrderNotFound string
  | OrderAlreadyPacked
  | EnterPartNumber
  | PartAlreadyScanned string
  | PartNotInOrder string
  | OrderMarkedPacked

text \<open>What reaches the developer console: the two \<^verbatim>\<open>console.warn\<close> calls, and a
  \<^verbatim>\<open>TypeError\<close> that no handler catches.\<close>

datatype log = ParseFailedWarning | CameraUnavailableWarning | UncaughtTypeError

record app =
  user :: "string option"
  db :: "nat list"
  currentOrder :: "nat option"
  scannedParts :: "string list"
  quaggaActive :: bool
  subscribed :: "callback list"
  heap :: "nat \<Rightarrow> order"
  nextRef :: nat
  localStorage :: "string \<Rightarrow> string option"
  screen :: screen
  alerts :: "alert list"
  console :: "log list"
  pendingParses :: nat
  cameraOK :: bool

text \<open>
  \<^item> \<open>db\<close> is \<^verbatim>\<open>state.db.orders\<close>, a list of references into \<open>heap\<close>;
    \<open>currentOrder\<close> is such a reference or \<^verbatim>\<open>null\<close>.
  \<^item> \<open>nextRef\<close> is the first address not yet given to an object.
  \<^item> \<open>subscribed\<close> lists the handlers registered with \<^verbatim>\<open>Quagga.onDetected\<close>; the
    script never removes one.
  \<^item> \<open>pendingParses\<close> counts the \<^verbatim>\<open>Papa.parse\<close> calls whose callback has not run.
  \<^item> \<open>cameraOK\<close> is the test \<^verbatim>\<open>navigator.mediaDevices && typeof Quagga !== 'undefined'\<close>
    of the environment.
\<close>

text \<open>\<^verbatim>\<open>JSON.stringify\<close> and \<^verbatim>\<open>JSON.parse\<close> belong to the runtime and are
  parameters. \<open>parse\<close> yields \<open>None\<close> where \<^verbatim>\<open>JSON.parse\<close> throws; a text that
  decodes to something other than an object with an \<^verbatim>\<open>orders\<close> array of order objects
  is outside the model.\<close>

record json =
  stringify :: "order list \<Rightarrow> string"
  parse :: "string \<Rightarrow> order list option"

definition dbKey :: string where
  "dbKey = ''barcodeAppDb''"

definition userKey :: string where
  "userKey = ''barcodeAppUser''"

text \<open>Creating the order objects of a new database: each gets a fresh address.\<close>

primrec newObjects :: "order list \<Rightarrow> nat \<Rightarrow> (nat \<Rightarrow> order) \<Rightarrow> nat list \<times> nat \<times> (nat \<Rightarrow> order)" where
  "newObjects [] n h = ([], n, h)"
| "newObjects (x # xs) n h =
     (case newObjects xs (Suc n) (h(n := x)) of (rs, n', h') \<Rightarrow> (n # rs, n', h'))"

definition setDb :: "order list \<Rightarrow> app \<Rightarrow> app" where
  "setDb os s =
     (case newObjects os (nextRef s) (heap s) of
        (rs, n', h') \<Rightarrow> s\<lparr>db := rs, heap := h', nextRef := n'\<rparr>)"

definition dbValue :: "app \<Rightarrow> order list" where
  "dbValue s = map (heap s) (db s)"

subsection \<open>Persistence: loadDatabase, saveDatabase\<close>

definition sampleOrders :: "order list" where
  "sampleOrders =
     [\<lparr>orderId = ''ORDER001'', parts = [''PART001'', ''PART002'', ''PART003''],
       customer = None, project = None, supplyDate = None,
       status = Pending, packedAt = None, packedBy = None\<rparr>]"

definition saveDatabase :: "json \<Rightarrow> app \<Rightarrow> app" where
  "saveDatabase J s =
     s\<lparr>localStorage := (localStorage s)(dbKey \<mapsto> stringify J (dbValue s))\<rparr>"

definition loadDatabase :: "json \<Rightarrow> app \<Rightarrow> app" where
  "loadDatabase J s =
     (let dbStr = localStorage s dbKey in
      if truthy dbStr then
        (case parse J (the dbStr) of
           Some os \<Rightarrow> setDb os s
         | None \<Rightarrow> setDb [] (s\<lparr>console := console s @ [ParseFailedWarning]\<rparr>))
      else saveDatabase J (setDb sampleOrders s))"

subsection \<open>The scanner: startScanner, its detection handler, stopScanner\<close>

definition startScanner :: "callback \<Rightarrow> app \<Rightarrow> app" where
  "startScanner onDetected s =
     (if \<not> cameraOK s then s\<lparr>console := console s @ [CameraUnavailableWarning]\<rparr>
      else s\<lparr>quaggaActive := True, subscribed := subscribed s @ [onDetected]\<rparr>)"

definition stopScanner :: "app \<Rightarrow> app" where
  "stopScanner s = s\<lparr>quaggaActive := False\<rparr>"

subsection \<open>Screens\<close>

definition showLogin :: "app \<Rightarrow> app" where
  "showLogin s = s\<lparr>screen := LoginScreen\<rparr>"

definition showHome :: "app \<Rightarrow> app" where
  "showHome s = s\<lparr>screen := HomeScreen\<rparr>"

definition showImport :: "app \<Rightarrow> app" where
  "showImport s = s\<lparr>screen := ImportScreen\<rparr>"

definition showDatabase :: "app \<Rightarrow> app" where
  "showDatabase s = s\<lparr>screen := DatabaseScreen\<rparr>"

definition showOrderScan :: "app \<Rightarrow> app" where
  "showOrderScan s = startScanner OrderCallback (s\<lparr>screen := OrderScanScreen\<rparr>)"

text \<open>\<^verbatim>\<open>showPartScan\<close> and \<^verbatim>\<open>showSummary\<close> clear \<^verbatim>\<open>#app\<close> and then read
  \<^verbatim>\<open>state.currentOrder.parts\<close>: with no current order they throw before the card is
  attached.\<close>

definition showPartScan :: "app \<Rightarrow> app" where
  "showPartScan s =
     (case currentOrder s of
        None \<Rightarrow> s\<lparr>screen := EmptyScreen, console := console s @ [UncaughtTypeError]\<rparr>
      | Some a \<Rightarrow> startScanner PartCallback (s\<lparr>screen := PartScanScreen\<rparr>))"

text \<open>The \<^verbatim>\<open>missing\<close> list of \<^verbatim>\<open>showSummary\<close>.\<close>

definition missingParts :: "app \<Rightarrow> string list" where
  "missingParts s =
     (case currentOrder s of
        None \<Rightarrow> []
      | Some a \<Rightarrow> filter (\<lambda>p. p \<notin> set (scannedParts s)) (parts (heap s a)))"

definition showSummary :: "app \<Rightarrow> app" where
  "showSummary s =
     (case currentOrder s of
        None \<Rightarrow> s\<lparr>screen := EmptyScreen, console := console s @ [UncaughtTypeError]\<rparr>
      | Some a \<Rightarrow> s\<lparr>screen := SummaryScreen (missingParts s \<noteq> [])\<rparr>)"

subsection \<open>Login and logout\<close>

definition loginBtn_click :: "string \<Rightarrow> app \<Rightarrow> app" where
  "loginBtn_click v s =
     (let username = trim v in
      if username = [] then s\<lparr>alerts := alerts s @ [EnterUserName]\<rparr>
      else showHome (s\<lparr>user := Some username,
                       localStorage := (localStorage s)(userKey \<mapsto> username)\<rparr>))"

definition logoutBtn_click :: "app \<Rightarrow> app" where
  "logoutBtn_click s =
     showLogin (s\<lparr>user := None, localStorage := (localStorage s)(userKey := None)\<rparr>)"

subsection \<open>Selecting an order: showOrderScan's listeners, handleOrderDetected\<close>

definition handleOrderDetected :: "string \<Rightarrow> app \<Rightarrow> app" where
  "handleOrderDetected oid s =
     (case find (\<lambda>a. orderId (heap s a) = oid) (db s) of
        None \<Rightarrow> showOrderScan (s\<lparr>alerts := alerts s @ [OrderNotFound oid]\<rparr>)
      | Some a \<Rightarrow>
          if status (heap s a) = Packed
          then showOrderScan (s\<lparr>alerts := alerts s @ [OrderAlreadyPacked]\<rparr>)
          else showPartScan (s\<lparr>currentOrder := Some a, scannedParts := []\<rparr>))"

definition manualOrderBtn_click :: "string \<Rightarrow> app \<Rightarrow> app" where
  "manualOrderBtn_click v s =
     (let val = trim v in
      if val = [] then s\<lparr>alerts := alerts s @ [EnterOrderNumber]\<rparr>
      else handleOrderDetected val (stopScanner s))"

definition cancelBtn_click :: "app \<Rightarrow> app" where
  "cancelBtn_click s = showHome (stopScanner s)"

subsection \<open>Scanning parts: showPartScan's listeners, handlePartDetected\<close>

definition handlePartDetected :: "string \<Rightarrow> app \<Rightarrow> app" where
  "handlePartDetected code s =
     (let partId = trim code in
      if partId = [] then s
      else if partId \<in> set (scannedParts s)
      then s\<lparr>alerts := alerts s @ [PartAlreadyScanned partId]\<rparr>
      else
        (case currentOrder s of
           None \<Rightarrow> s\<lparr>console := console s @ [UncaughtTypeError]\<rparr>
         | Some a \<Rightarrow>
             if partId \<notin> set (parts (heap s a))
             then s\<lparr>alerts := alerts s @ [PartNotInOrder partId]\<rparr>
             else
               (let s' = s\<lparr>scannedParts := scannedParts s @ [partId]\<rparr> in
                if length (scannedParts s') = length (parts (heap s' a))
                then showSummary (stopScanner s')
                else s')))"

definition manualPartBtn_click :: "string \<Rightarrow> app \<Rightarrow> app" where
  "manualPartBtn_click v s =
     (let val = trim v in
      if val = [] then s\<lparr>alerts := alerts s @ [EnterPartNumber]\<rparr>
      else handlePartDetected val s)"

definition cancelPartsBtn_click :: "app \<Rightarrow> app" where
  "cancelPartsBtn_click s = showOrderScan (stopScanner s)"

text \<open>The function registered with \<^verbatim>\<open>Quagga.onDetected\<close> by \<^verbatim>\<open>startScanner\<close>. The
  decoded code is \<^verbatim>\<open>result.codeResult.code\<close>, a string or \<^verbatim>\<open>null\<close>.\<close>

definition runCallback :: "callback \<Rightarrow> string \<Rightarrow> app \<Rightarrow> app" where
  "runCallback cb code s =
     (case cb of
        OrderCallback \<Rightarrow> handleOrderDetected code s
      | PartCallback \<Rightarrow> handlePartDetected code s)"

definition detectedHandler :: "callback \<Rightarrow> string option \<Rightarrow> app \<Rightarrow> app" where
  "detectedHandler cb code s =
     (if \<not> quaggaActive s then s
      else if truthy code then runCallback cb (the code) (s\<lparr>quaggaActive := False\<rparr>)
      else s)"

subsection \<open>The summary: showSummary's listeners\<close>

text \<open>The time stamp \<^verbatim>\<open>new Date().toISOString()\<close> is an argument.\<close>

definition markPackedBtn_click :: "json \<Rightarrow> string \<Rightarrow> app \<Rightarrow> app" where
  "markPackedBtn_click J now s =
     (case currentOrder s of
        None \<Rightarrow> s\<lparr>console := console s @ [UncaughtTypeError]\<rparr>
      | Some a \<Rightarrow>
          (let s1 = s\<lparr>heap := (heap s)(a := (heap s a)\<lparr>status := Packed,
                                                      packedAt := Some now,
                                                      packedBy := user s\<rparr>)\<rparr>;
               s2 = saveDatabase J s1
           in showHome (s2\<lparr>alerts := alerts s2 @ [OrderMarkedPacked]\<rparr>)))"

definition backBtn_click :: "app \<Rightarrow> app" where
  "backBtn_click s = showHome s"

subsection \<open>The import: showImport's listeners\<close>

definition loadSampleBtn_click :: "json \<Rightarrow> app \<Rightarrow> app" where
  "loadSampleBtn_click J s =
     (let s1 = saveDatabase J (setDb sampleOrders s)
      in showHome (s1\<lparr>alerts := alerts s1 @ [SampleLoaded]\<rparr>))"

text \<open>A row of \<^verbatim>\<open>results.data\<close> is an object whose own properties are the header names,
  in column order, with string values. Header names are taken not to be property names of
  \<^verbatim>\<open>Object.prototype\<close> nor array indices, so that \<^verbatim>\<open>Object.keys\<close> lists them in
  column order and a missing column reads as \<^verbatim>\<open>undefined\<close>.\<close>

type_synonym row = "(string \<times> string) list"

text \<open>\<^verbatim>\<open>toLowerCase\<close> is used only to search a header name for the fragments below, which
  consist of the ASCII letters of \<^verbatim>\<open>order\<close>, \<^verbatim>\<open>part\<close>, \<^verbatim>\<open>partid\<close>, \<^verbatim>\<open>part_id\<close>,
  \<^verbatim>\<open>customer\<close>, \<^verbatim>\<open>project\<close>, \<^verbatim>\<open>date\<close>, the underscore, the space and Hebrew letters.
  Lowering the ASCII letters decides every such search: Hebrew has no case, and the two
  other characters whose lower case contains an ASCII letter, U+212A (giving \<^verbatim>\<open>k\<close>) and
  U+0130 (giving \<^verbatim>\<open>i\<close> and U+0307), give no letter that can complete a fragment which
  the header does not already contain.\<close>

definition toLowerCase :: "string \<Rightarrow> string" where
  "toLowerCase s =
     map (\<lambda>c. case map_of (zip ''ABCDEFGHIJKLMNOPQRSTUVWXYZ'' ''abcdefghijklmnopqrstuvwxyz'') c of
               Some l \<Rightarrow> l
             | None \<Rightarrow> c) s"

fun startsWith :: "string \<Rightarrow> string \<Rightarrow> bool" where
  "startsWith s [] = True"
| "startsWith [] (p # ps) = False"
| "startsWith (c # cs) (p # ps) = (c = p \<and> startsWith cs ps)"

fun includesStr :: "string \<Rightarrow> string \<Rightarrow> bool" where
  "includesStr [] p = (p = [])"
| "includesStr (c # cs) p = (startsWith (c # cs) p \<or> includesStr cs p)"

definition findKey :: "string list \<Rightarrow> string list \<Rightarrow> string option" where
  "findKey keys patterns =
     find (\<lambda>k. list_ex (\<lambda>p. includesStr (toLowerCase k) p) patterns) keys"

text \<open>The Hebrew header fragments, as their UTF-8 bytes.\<close>

definition hebOrderNumber :: string where
  "hebOrderNumber =
     [CHR 0xD7, CHR 0x9E, CHR 0xD7, CHR 0xA1, CHR 0xD7, CHR 0xA4, CHR 0xD7, CHR 0xA8,
      CHR 0x20, CHR 0xD7, CHR 0x94, CHR 0xD7, CHR 0x96, CHR 0xD7, CHR 0x9E, CHR 0xD7,
      CHR 0xA0, CHR 0xD7, CHR 0x94]"

definition hebPartNumber :: string where
  "hebPartNumber =
     [CHR 0xD7, CHR 0x9E, CHR 0xD7, CHR 0xA1, CHR 0xD7, CHR 0xA4, CHR 0xD7, CHR 0xA8,
      CHR 0x20, CHR 0xD7, CHR 0x97, CHR 0xD7, CHR 0x9C, CHR 0xD7, CHR 0xA7]"

definition hebCustomer :: string where
  "hebCustomer =
     [CHR 0xD7, CHR 0x9C, CHR 0xD7, CHR 0xA7, CHR 0xD7, CHR 0x95, CHR 0xD7, CHR 0x97]"

definition hebProject :: string where
  "hebProject =
     [CHR 0xD7, CHR 0xA4, CHR 0xD7, CHR 0xA8, CHR 0xD7, CHR 0x95, CHR 0xD7, CHR 0x99,
      CHR 0xD7, CHR 0xA7, CHR 0xD7, CHR 0x98]"

definition hebDate :: string where
  "hebDate =
     [CHR 0xD7, CHR 0xAA, CHR 0xD7, CHR 0x90, CHR 0xD7, CHR 0xA8, CHR 0xD7, CHR 0x99,
      CHR 0xD7, CHR 0x9A]"

record columns =
  orderKey :: "string option"
  partKey :: "string option"
  customerKey :: "string option"
  projectKey :: "string option"
  dateKey :: "string option"

definition findColumns :: "row list \<Rightarrow> columns" where
  "findColumns data =
     (let firstRow = (case data of [] \<Rightarrow> [] | r # _ \<Rightarrow> r);
          keys = map fst firstRow
      in \<lparr>orderKey = findKey keys [''order'', hebOrderNumber],
          partKey = findKey keys [''partid'', ''part_id'', ''part'', hebPartNumber],
          customerKey = findKey keys [''customer'', hebCustomer],
          projectKey = findKey keys [''project'', hebProject],
          dateKey = findKey keys [''date'', hebDate]\<rparr>)"

text \<open>\<^verbatim>\<open>row[key]\<close>; an undefined key reads the property named \<^verbatim>\<open>undefined\<close>.\<close>

definition rowGet :: "row \<Rightarrow> string option \<Rightarrow> string option" where
  "rowGet row key = map_of row (case key of None \<Rightarrow> ''undefined'' | Some k \<Rightarrow> k)"

definition trimmed :: "string option \<Rightarrow> string option" where
  "trimmed v = (if truthy v then Some (trim (the v)) else v)"

text \<open>The order id and part id of a row, after the positional fallback and trimming;
  \<open>None\<close> when the row is skipped.\<close>

definition resolveRow :: "columns \<Rightarrow> row \<Rightarrow> (string \<times> string) option" where
  "resolveRow cols row =
     (let orderId0 = rowGet row (orderKey cols);
          partUid0 = rowGet row (partKey cols);
          fallback = (\<not> truthy orderId0 \<or> \<not> truthy partUid0);
          rowKeys = map fst row;
          orderId1 = (if fallback \<and> \<not> truthy orderId0 \<and> length rowKeys \<ge> 1
                      then rowGet row (Some (rowKeys ! 0)) else orderId0);
          partUid1 = (if fallback \<and> \<not> truthy partUid0 \<and> length rowKeys \<ge> 2
                      then rowGet row (Some (rowKeys ! 1)) else partUid0);
          orderId2 = trimmed orderId1;
          partUid2 = trimmed partUid1
      in if \<not> truthy orderId2 \<or> \<not> truthy partUid2 then None
         else Some (the orderId2, the partUid2))"

text \<open>\<^verbatim>\<open>ordersMap\<close> is an ordinary object: its own properties in creation order, and the
  properties it inherits from \<^verbatim>\<open>Object.prototype\<close>, all truthy and none with a
  \<^verbatim>\<open>parts\<close> array.\<close>

definition objectPrototypeKeys :: "string list" where
  "objectPrototypeKeys =
     [''constructor'', ''__defineGetter__'', ''__defineSetter__'', ''hasOwnProperty'',
      ''__lookupGetter__'', ''__lookupSetter__'', ''isPrototypeOf'',
      ''propertyIsEnumerable'', ''toString'', ''valueOf'', ''__proto__'',
      ''toLocaleString'']"

definition cell :: "row \<Rightarrow> string option \<Rightarrow> string" where
  "cell row key = (if truthy (rowGet row key) then trim (the (rowGet row key)) else [])"

definition addRow :: "columns \<Rightarrow> row \<Rightarrow> (string \<times> order) list \<Rightarrow> (string \<times> order) list option" where
  "addRow cols row ordersMap =
     (case resolveRow cols row of
        None \<Rightarrow> Some ordersMap
      | Some (oid, partUid) \<Rightarrow>
          (case map_of ordersMap oid of
             Some _ \<Rightarrow>
               Some (map (\<lambda>(k, v). if k = oid then (k, v\<lparr>parts := parts v @ [partUid]\<rparr>)
                                    else (k, v)) ordersMap)
           | None \<Rightarrow>
               if oid \<in> set objectPrototypeKeys then None
               else Some (ordersMap @
                      [(oid, \<lparr>orderId = oid, parts = [partUid],
                              customer = Some (cell row (customerKey cols)),
                              project = Some (cell row (projectKey cols)),
                              supplyDate = Some (cell row (dateKey cols)),
                              status = Pending, packedAt = None, packedBy = None\<rparr>)])))"

text \<open>\<^verbatim>\<open>data.forEach\<close>; \<open>None\<close> when the callback throws.\<close>

primrec importRows :: "columns \<Rightarrow> row list \<Rightarrow> (string \<times> order) list \<Rightarrow> (string \<times> order) list option" where
  "importRows cols [] ordersMap = Some ordersMap"
| "importRows cols (row # rows) ordersMap =
     (case addRow cols row ordersMap of
        None \<Rightarrow> None
      | Some ordersMap' \<Rightarrow> importRows cols rows ordersMap')"

text \<open>\<^verbatim>\<open>Object.values\<close>: the properties whose names are array indices first, in
  ascending numeric order, then the others in creation order.\<close>

definition digitOf :: "char \<Rightarrow> nat option" where
  "digitOf c = map_of (zip ''0123456789'' [0, 1, 2, 3, 4, 5, 6, 7, 8, 9]) c"

definition isDigit :: "char \<Rightarrow> bool" where
  "isDigit c \<longleftrightarrow> digitOf c \<noteq> None"

definition digitsValue :: "string \<Rightarrow> nat" where
  "digitsValue k = foldl (\<lambda>n c. 10 * n + (case digitOf c of Some d \<Rightarrow> d | None \<Rightarrow> 0)) 0 k"

definition isArrayIndex :: "string \<Rightarrow> bool" where
  "isArrayIndex k \<longleftrightarrow>
     k \<noteq> [] \<and> list_all isDigit k \<and> (k = ''0'' \<or> hd k \<noteq> CHR ''0'')
     \<and> digitsValue k \<le> 4294967294"

definition objectValues :: "(string \<times> 'v) list \<Rightarrow> 'v list" where
  "objectValues m =
     map snd (sort_key (\<lambda>kv. digitsValue (fst kv)) (filter (\<lambda>kv. isArrayIndex (fst kv)) m))
     @ map snd (filter (\<lambda>kv. \<not> isArrayIndex (fst kv)) m)"

text \<open>The \<^verbatim>\<open>complete\<close> and \<^verbatim>\<open>error\<close> callbacks given to \<^verbatim>\<open>Papa.parse\<close>.\<close>

definition csvComplete :: "json \<Rightarrow> row list \<Rightarrow> app \<Rightarrow> app" where
  "csvComplete J data s =
     (case importRows (findColumns data) data [] of
        None \<Rightarrow> s\<lparr>console := console s @ [UncaughtTypeError]\<rparr>
      | Some ordersMap \<Rightarrow>
          (let s1 = saveDatabase J (setDb (objectValues ordersMap) s)
           in showHome (s1\<lparr>alerts := alerts s1 @ [DatabaseLoaded]\<rparr>)))"

definition csvError :: "string \<Rightarrow> app \<Rightarrow> app" where
  "csvError msg s = s\<lparr>alerts := alerts s @ [CsvReadError msg]\<rparr>"

subsection \<open>Events\<close>

text \<open>
  The hosting event loop runs one listener at a time. A click reaches a listener only
  while its button is in \<^verbatim>\<open>#app\<close>, and never a disabled button; a \<^verbatim>\<open>Papa.parse\<close>
  callback runs once for a parse that was started; a detection reaches a handler that was
  registered with \<^verbatim>\<open>Quagga.onDetected\<close>.
\<close>

datatype event =
  LoginBtn string
  | ScanOrderBtn | ImportBtn | DbBtn | LogoutBtn
  | BackHomeBtn | LoadSampleBtn | CsvInputChange | CsvComplete "row list" | CsvError string
  | ManualOrderBtn string | CancelBtn
  | ManualPartBtn string | CancelPartsBtn
  | BackBtn | MarkPackedBtn string
  | BackFromDbBtn
  | Detected callback "string option"

fun step :: "json \<Rightarrow> event \<Rightarrow> app \<Rightarrow> app" where
  "step J (LoginBtn v) s = (if screen s = LoginScreen then loginBtn_click v s else s)"
| "step J ScanOrderBtn s = (if screen s = HomeScreen then showOrderScan s else s)"
| "step J ImportBtn s = (if screen s = HomeScreen then showImport s else s)"
| "step J DbBtn s = (if screen s = HomeScreen then showDatabase s else s)"
| "step J LogoutBtn s = (if screen s = HomeScreen then logoutBtn_click s else s)"
| "step J BackHomeBtn s = (if screen s = ImportScreen then showHome s else s)"
| "step J LoadSampleBtn s = (if screen s = ImportScreen then loadSampleBtn_click J s else s)"
| "step J CsvInputChange s =
     (if screen s = ImportScreen then s\<lparr>pendingParses := Suc (pendingParses s)\<rparr> else s)"
| "step J (CsvComplete data) s =
     (if 0 < pendingParses s then csvComplete J data (s\<lparr>pendingParses := pendingParses s - 1\<rparr>)
      else s)"
| "step J (CsvError msg) s =
     (if 0 < pendingParses s then csvError msg (s\<lparr>pendingParses := pendingParses s - 1\<rparr>)
      else s)"
| "step J (ManualOrderBtn v) s =
     (if screen s = OrderScanScreen then manualOrderBtn_click v s else s)"
| "step J CancelBtn s = (if screen s = OrderScanScreen then cancelBtn_click s else s)"
| "step J (ManualPartBtn v) s =
     (if screen s = PartScanScreen then manualPartBtn_click v s else s)"
| "step J CancelPartsBtn s = (if screen s = PartScanScreen then cancelPartsBtn_click s else s)"
| "step J BackBtn s = (case screen s of SummaryScreen _ \<Rightarrow> backBtn_click s | _ \<Rightarrow> s)"
| "step J (MarkPackedBtn now) s =
     (case screen s of
        SummaryScreen disabled \<Rightarrow> if disabled then s else markPackedBtn_click J now s
      | _ \<Rightarrow> s)"
| "step J BackFromDbBtn s = (if screen s = DatabaseScreen then showHome s else s)"
| "step J (Detected cb code) s =
     (if cb \<in> set (subscribed s) then detectedHandler cb code s else s)"

text \<open>The script's \<^verbatim>\<open>init\<close>, run once when the document is loaded, on the initial
  value of \<^verbatim>\<open>state\<close> and whatever the storage holds. In \<open>blank\<close> the field \<open>db\<close>
  stands for the \<^verbatim>\<open>null\<close> that \<^verbatim>\<open>loadDatabase\<close> overwrites on each of its paths, and
  every address of the store holds a placeholder: no object has been created.\<close>

definition unallocated :: order where
  "unallocated =
     \<lparr>orderId = [], parts = [], customer = None, project = None, supplyDate = None,
      status = Pending, packedAt = None, packedBy = None\<rparr>"

definition blank :: "(string \<Rightarrow> string option) \<Rightarrow> bool \<Rightarrow> app" where
  "blank store cam =
     \<lparr>user = None, db = [], currentOrder = None, scannedParts = [],
      quaggaActive = False, subscribed = [], heap = (\<lambda>_. unallocated), nextRef = 0,
      localStorage = store, screen = LoginScreen, alerts = [], console = [],
      pendingParses = 0, cameraOK = cam\<rparr>"

definition init :: "json \<Rightarrow> app \<Rightarrow> app" where
  "init J s =
     (let s1 = loadDatabase J s; savedUser = localStorage s1 userKey in
      if truthy savedUser then showHome (s1\<lparr>user := savedUser\<rparr>) else showLogin s1)"

inductive reachable :: "json \<Rightarrow> app \<Rightarrow> bool" for J :: json where
  reach_init: "reachable J (init J (blank store cam))"
| reach_step: "reachable J s \<Longrightarrow> reachable J (step J e s)"

primrec run :: "json \<Rightarrow> event list \<Rightarrow> app \<Rightarrow> app" where
  "run J [] s = s"
| "run J (e # es) s = run J es (step J e s)"

subsection \<open>A concrete runtime for the examples\<close>

text \<open>The examples need some value for the two JSON functions. \<open>exampleJson\<close> writes a
  database as the list of its order ids, each followed by \<^verbatim>\<open>+\<close> when packed and
  \<^verbatim>\<open>-\<close> when pending, and, as \<^verbatim>\<open>JSON.parse\<close> does, rejects the text \<^verbatim>\<open>{\<close>.\<close>

definition exampleJson :: json where
  "exampleJson =
     \<lparr>stringify = (\<lambda>os. concat (map (\<lambda>x. orderId x @ (if status x = Packed then ''+'' else ''-'')) os)),
      parse = (\<lambda>txt. if txt = ''{'' then None else Some [])\<rparr>"

text \<open>A storage that holds nothing, and one that holds the text \<^verbatim>\<open>{\<close> as the
  database.\<close>

definition emptyStore :: "string \<Rightarrow> string option" where
  "emptyStore = (\<lambda>k. None)"

definition corruptStore :: "string \<Rightarrow> string option" where
  "corruptStore = (\<lambda>k. if k = dbKey then Some ''{'' else None)"

text \<open>The application as \<^verbatim>\<open>init\<close> leaves it on a device with a camera and an empty
  storage; after the operator has logged in as Dana and opened the order scan; and after
  the order \<^verbatim>\<open>ORDER001\<close> has been entered there.\<close>

definition freshApp :: app where
  "freshApp = init exampleJson (blank emptyStore True)"

definition orderScanApp :: app where
  "orderScanApp = run exampleJson [LoginBtn '' Dana '', ScanOrderBtn] freshApp"

definition partScanApp :: app where
  "partScanApp = step exampleJson (ManualOrderBtn ''ORDER001'') orderScanApp"

text \<open>The import screen with a parse under way; two parsed files, one whose rows all lack
  an order id or a part id (the order id of its first row is a space and a no-break
  space), one that lists the same part twice for the order \<^verbatim>\<open>A\<close>;
  and the part scan of that order once the second file is imported.\<close>

definition importApp :: app where
  "importApp = run exampleJson [LoginBtn '' Dana '', ImportBtn, CsvInputChange] freshApp"

definition rowsWithoutIds :: "row list" where
  "rowsWithoutIds =
     [[(''Order'', [CHR 0x20, CHR 0xC2, CHR 0xA0]), (''Part'', ''P1'')],
      [(''Order'', ''A''), (''Part'', [])]]"

definition duplicateRows :: "row list" where
  "duplicateRows =
     [[(''Order'', ''A''), (''Part'', ''P'')], [(''Order'', ''A''), (''Part'', ''P'')]]"

definition duplicateApp :: app where
  "duplicateApp =
     run exampleJson [CsvComplete duplicateRows, ScanOrderBtn, ManualOrderBtn ''A''] importApp"

subsection \<open>Predicates on the state\<close>

text \<open>Every reference held by the state is to an object that was created.\<close>

definition refsValid :: "app \<Rightarrow> bool" where
  "refsValid s \<longleftrightarrow>
     (\<forall>a\<in>set (db s). a < nextRef s) \<and> (\<forall>a. currentOrder s = Some a \<longrightarrow> a < nextRef s)"

text \<open>With a current order, the scanned parts are distinct parts of that order.\<close>

definition scanProgressOk :: "app \<Rightarrow> bool" where
  "scanProgressOk s \<longleftrightarrow>
     (case currentOrder s of
        None \<Rightarrow> True
      | Some a \<Rightarrow> distinct (scannedParts s) \<and> set (scannedParts s) \<subseteq> set (parts (heap s a)))"

definition appInv :: "app \<Rightarrow> bool" where
  "appInv s \<longleftrightarrow> refsValid s \<and> scanProgressOk s"

text \<open>While the summary is shown, its button is enabled, the scanner is stopped, no part
  of the current order is missing.\<close>

definition summaryOk :: "app \<Rightarrow> bool" where
  "summaryOk s \<longleftrightarrow>
     (\<forall>d. screen s = SummaryScreen d \<longrightarrow>
        \<not> d \<and> \<not> quaggaActive s \<and> missingParts s = [] \<and> currentOrder s \<noteq> None)"

text \<open>The events that submit a part code: the manual entry of the part scan, and a
  detection delivered to the handler of the part scan.\<close>

fun isPartEvent :: "event \<Rightarrow> bool" where
  "isPartEvent (ManualPartBtn v) = True"
| "isPartEvent (Detected PartCallback code) = True"
| "isPartEvent e = False"

text \<open>The scenario of the specification: the three parts of \<^verbatim>\<open>ORDER001\<close> are
  submitted, the second by the scanner, and the order is marked as packed.\<close>

definition packEvents :: "event list" where
  "packEvents =
     [ManualPartBtn ''PART002'', Detected PartCallback (Some ''PART001''),
      ManualPartBtn ''PART003'']"

definition summaryApp :: app where
  "summaryApp = run exampleJson packEvents partScanApp"

definition packedApp :: app where
  "packedApp = step exampleJson (MarkPackedBtn ''2026-01-01T08:00:00.000Z'') summaryApp"

text \<open>The part scan of \<^verbatim>\<open>ORDER001\<close> after the part \<^verbatim>\<open>PART001\<close> is entered, and the
  order scan after that part scan is cancelled.\<close>

definition onePartApp :: app where
  "onePartApp = step exampleJson (ManualPartBtn ''PART001'') partScanApp"

definition cancelledApp :: app where
  "cancelledApp = step exampleJson CancelPartsBtn onePartApp"

text \<open>A part scan that is cancelled and whose handler is reached later. Two parts of
  \<^verbatim>\<open>ORDER001\<close> are entered and the part scan is cancelled; the operator goes home,
  loads the built-in sample on the import screen and opens the order scan. The scanner
  then decodes \<^verbatim>\<open>PART003\<close>, and the detection is given to the handlers registered
  with \<^verbatim>\<open>Quagga.onDetected\<close> in the order of their registration: the handler of the
  first order scan, then the handler of the cancelled part scan.\<close>

definition staleEvents :: "event list" where
  "staleEvents =
     [ManualPartBtn ''PART001'', ManualPartBtn ''PART002'', CancelPartsBtn, CancelBtn,
      ImportBtn, LoadSampleBtn, ScanOrderBtn,
      Detected OrderCallback (Some ''PART003''), Detected PartCallback (Some ''PART003'')]"

definition staleSummaryApp :: app where
  "staleSummaryApp = run exampleJson staleEvents partScanApp"

definition stalePackedApp :: app where
  "stalePackedApp =
     step exampleJson (MarkPackedBtn ''2026-01-01T08:00:00.000Z'') staleSummaryApp"

section \<open>Properties\<close>

subsection \<open>Evaluating the examples\<close>

lemmas trim_defs = trim_def trimEnd_def isWhiteSpace_def whiteSpace_def

lemmas handler_defs =
  loginBtn_click_def logoutBtn_click_def showHome_def showLogin_def showImport_def
  showDatabase_def showOrderScan_def showPartScan_def showSummary_def missingParts_def
  startScanner_def stopScanner_def handleOrderDetected_def manualOrderBtn_click_def
  cancelBtn_click_def handlePartDetected_def manualPartBtn_click_def cancelPartsBtn_click_def
  runCallback_def detectedHandler_def markPackedBtn_click_def backBtn_click_def
  loadSampleBtn_click_def csvComplete_def csvError_def saveDatabase_def loadDatabase_def
  setDb_def dbValue_def init_def blank_def sampleOrders_def dbKey_def userKey_def
  trim_defs Let_def exampleJson_def emptyStore_def corruptStore_def

lemma freshApp_eval:
  "freshApp =
     \<lparr>user = None, db = [0], currentOrder = None, scannedParts = [],
      quaggaActive = False, subscribed = [],
      heap = (\<lambda>_. unallocated)(0 := hd sampleOrders), nextRef = 1,
      localStorage = (\<lambda>k. None)(dbKey \<mapsto> ''ORDER001-''), screen = LoginScreen,
      alerts = [], console = [], pendingParses = 0, cameraOK = True\<rparr>"
  by (simp add: freshApp_def handler_defs)

lemma orderScanApp_eval:
  "orderScanApp =
     freshApp\<lparr>user := Some ''Dana'',
              localStorage := (localStorage freshApp)(userKey \<mapsto> ''Dana''),
              screen := OrderScanScreen, quaggaActive := True,
              subscribed := [OrderCallback]\<rparr>"
  by (simp add: orderScanApp_def freshApp_eval handler_defs)

lemma partScanApp_eval:
  "partScanApp =
     orderScanApp\<lparr>currentOrder := Some 0, scannedParts := [], screen := PartScanScreen,
                  quaggaActive := True, subscribed := [OrderCallback, PartCallback]\<rparr>"
  by (simp add: partScanApp_def orderScanApp_eval freshApp_eval handler_defs)

lemma importApp_eval:
  "importApp =
     freshApp\<lparr>user := Some ''Dana'',
              localStorage := (localStorage freshApp)(userKey \<mapsto> ''Dana''),
              screen := ImportScreen, pendingParses := 1\<rparr>"
  by (simp add: importApp_def freshApp_eval handler_defs)

lemmas import_defs =
  findColumns_def findKey_def toLowerCase_def hebDate_def hebProject_def hebCustomer_def
  hebPartNumber_def hebOrderNumber_def resolveRow_def rowGet_def trimmed_def cell_def
  addRow_def objectPrototypeKeys_def objectValues_def isArrayIndex_def isDigit_def
  digitOf_def digitsValue_def

lemma summaryApp_eval:
  "summaryApp =
     partScanApp\<lparr>scannedParts := [''PART002'', ''PART001'', ''PART003''],
                 quaggaActive := False, screen := SummaryScreen False\<rparr>"
  by (simp add: summaryApp_def packEvents_def partScanApp_eval orderScanApp_eval freshApp_eval
      handler_defs)

lemmas example_evals = partScanApp_eval orderScanApp_eval freshApp_eval

subsection \<open>Creating order objects\<close>

lemma newObjects_spec:
  "newObjects os n h = (rs, n', h') \<Longrightarrow>
     rs = [n..<n + length os] \<and> n' = n + length os \<and> map h' rs = os
     \<and> (\<forall>a<n. h' a = h a)"
proof (induction os arbitrary: n h rs n' h')
  case Nil
  then show ?case by simp
next
  case (Cons x xs)
  obtain rs1 n1 h1 where r: "newObjects xs (Suc n) (h(n := x)) = (rs1, n1, h1)"
    by (cases "newObjects xs (Suc n) (h(n := x))") auto
  from Cons.IH [OF r] have ih: "rs1 = [Suc n..<Suc n + length xs]" "n1 = Suc n + length xs"
    "map h1 rs1 = xs" "\<forall>a<Suc n. h1 a = (h(n := x)) a"
    by auto
  from Cons.prems r have e: "rs = n # rs1" "n' = n1" "h' = h1"
    by auto
  have "h1 n = x" using ih(4) by simp
  moreover have "\<forall>a<n. h1 a = h a" using ih(4) by simp
  ultimately show ?case using e ih by (simp add: upt_rec)
qed

lemma dbValue_setDb: "dbValue (setDb os s) = os"
  by (cases "newObjects os (nextRef s) (heap s)")
     (auto simp: setDb_def dbValue_def dest: newObjects_spec)

lemma setDb_frame:
  "localStorage (setDb os s) = localStorage s \<and> console (setDb os s) = console s
   \<and> alerts (setDb os s) = alerts s \<and> user (setDb os s) = user s
   \<and> screen (setDb os s) = screen s \<and> currentOrder (setDb os s) = currentOrder s
   \<and> scannedParts (setDb os s) = scannedParts s"
  by (cases "newObjects os (nextRef s) (heap s)") (auto simp: setDb_def)

lemma setDb_Nil: "db (setDb [] s) = []"
  by (simp add: setDb_def)

subsection \<open>Loading the database\<close>

text \<open>
  Claim C2, as the script has it. With nothing stored under the database key (or the
  empty text), \<^verbatim>\<open>loadDatabase\<close> makes the built-in sample order set the database and
  stores it, with no alert and nothing on the console. With a stored text that the JSON
  parser rejects, it makes the database one with no orders, warns on the console only,
  raises no alert and leaves the storage as it is.
\<close>

theorem loadDatabase_absent_or_corrupt:
  "(\<not> truthy (localStorage s dbKey) \<longrightarrow>
       dbValue (loadDatabase J s) = sampleOrders
     \<and> localStorage (loadDatabase J s) dbKey = Some (stringify J sampleOrders)
     \<and> console (loadDatabase J s) = console s
     \<and> alerts (loadDatabase J s) = alerts s)
   \<and> (truthy (localStorage s dbKey) \<and> parse J (the (localStorage s dbKey)) = None \<longrightarrow>
       dbValue (loadDatabase J s) = []
     \<and> db (loadDatabase J s) = []
     \<and> console (loadDatabase J s) = console s @ [ParseFailedWarning]
     \<and> alerts (loadDatabase J s) = alerts s
     \<and> localStorage (loadDatabase J s) = localStorage s)"
  by (simp add: loadDatabase_def Let_def saveDatabase_def dbValue_setDb setDb_frame setDb_Nil
      dbValue_setDb [unfolded dbValue_def] dbValue_def)

theorem loadDatabase_absent_or_corrupt_witness:
  "\<not> truthy (localStorage (blank emptyStore True) dbKey)
   \<and> dbValue (loadDatabase exampleJson (blank emptyStore True)) = sampleOrders
   \<and> truthy (localStorage (blank corruptStore True) dbKey)
   \<and> parse exampleJson (the (localStorage (blank corruptStore True) dbKey)) = None
   \<and> dbValue (loadDatabase exampleJson (blank corruptStore True)) = []
   \<and> console (loadDatabase exampleJson (blank corruptStore True)) = [ParseFailedWarning]
   \<and> alerts (loadDatabase exampleJson (blank corruptStore True)) = []"
proof -
  have a: "\<not> truthy (localStorage (blank emptyStore True) dbKey)"
    by (simp add: blank_def emptyStore_def)
  have b: "truthy (localStorage (blank corruptStore True) dbKey)
           \<and> parse exampleJson (the (localStorage (blank corruptStore True) dbKey)) = None"
    by (simp add: blank_def corruptStore_def exampleJson_def)
  have c: "console (blank corruptStore True) = [] \<and> alerts (blank corruptStore True) = []"
    by (simp add: blank_def)
  show ?thesis
    using a b c
      loadDatabase_absent_or_corrupt [of "blank emptyStore True" exampleJson]
      loadDatabase_absent_or_corrupt [of "blank corruptStore True" exampleJson]
    by simp
qed

text \<open>The claim as the specification words it fails: the text \<^verbatim>\<open>{\<close> is stored, the
  parser rejects it, and the database that results has no orders; it is not the sample
  order set.\<close>

theorem loadDatabase_corrupt_not_sample:
  "localStorage (blank corruptStore True) dbKey = Some ''{''
   \<and> parse exampleJson ''{'' = None
   \<and> dbValue (loadDatabase exampleJson (blank corruptStore True)) = []
   \<and> dbValue (loadDatabase exampleJson (blank corruptStore True)) \<noteq> sampleOrders"
  by (simp add: handler_defs)

subsection \<open>Login and logout\<close>

text \<open>
  Claim C7. For every name that is not empty after trimming, the login listener accepts
  it without an alert, sets \<^verbatim>\<open>state.user\<close> to the trimmed name, stores it under the
  user key and shows the home screen. The logout listener that follows clears
  \<^verbatim>\<open>state.user\<close> and the stored user and shows the login screen, while the database,
  the order objects and the stored database are exactly what they were before the login.
\<close>

theorem login_then_logout:
  "trim name \<noteq> [] \<Longrightarrow>
     user (loginBtn_click name s) = Some (trim name)
   \<and> localStorage (loginBtn_click name s) userKey = Some (trim name)
   \<and> screen (loginBtn_click name s) = HomeScreen
   \<and> alerts (loginBtn_click name s) = alerts s
   \<and> user (logoutBtn_click (loginBtn_click name s)) = None
   \<and> localStorage (logoutBtn_click (loginBtn_click name s)) userKey = None
   \<and> screen (logoutBtn_click (loginBtn_click name s)) = LoginScreen
   \<and> db (logoutBtn_click (loginBtn_click name s)) = db s
   \<and> heap (logoutBtn_click (loginBtn_click name s)) = heap s
   \<and> localStorage (logoutBtn_click (loginBtn_click name s)) dbKey = localStorage s dbKey"
  by (simp add: loginBtn_click_def logoutBtn_click_def showHome_def showLogin_def Let_def
      dbKey_def userKey_def)

theorem login_then_logout_witness:
  "trim '' Dana '' \<noteq> []
   \<and> user (loginBtn_click '' Dana '' freshApp) = Some ''Dana''
   \<and> screen (loginBtn_click '' Dana '' freshApp) = HomeScreen
   \<and> user (logoutBtn_click (loginBtn_click '' Dana '' freshApp)) = None
   \<and> db (logoutBtn_click (loginBtn_click '' Dana '' freshApp)) = db freshApp
   \<and> localStorage (logoutBtn_click (loginBtn_click '' Dana '' freshApp)) dbKey
       = localStorage freshApp dbKey"
proof -
  have t: "trim '' Dana '' = ''Dana''"
    by (simp add: trim_defs)
  then have ne: "trim '' Dana '' \<noteq> []"
    by simp
  show ?thesis
    using login_then_logout [OF ne, of freshApp] t by simp
qed

text \<open>A name of white space only, here a no-break space, is refused.\<close>

lemma login_refuses_blank_name:
  "trim [CHR 0xC2, CHR 0xA0] = []
   \<and> loginBtn_click [CHR 0xC2, CHR 0xA0] freshApp = freshApp\<lparr>alerts := [EnterUserName]\<rparr>"
  by (simp add: loginBtn_click_def freshApp_eval trim_defs)

subsection \<open>Stale detections\<close>

text \<open>While the flag \<^verbatim>\<open>quaggaActive\<close> is clear, a detection handler does nothing, and
  \<^verbatim>\<open>stopScanner\<close> clears the flag.\<close>

lemma detection_with_clear_flag:
  "\<not> quaggaActive (stopScanner s)
   \<and> detectedHandler cb code (stopScanner s) = stopScanner s
   \<and> (\<not> quaggaActive s' \<longrightarrow>
        detectedHandler cb code s' = s' \<and> step J (Detected cb code) s' = s')"
  by (simp add: stopScanner_def detectedHandler_def)

text \<open>
  Claim C8 at a part scan that was stopped. The cancel button of the part scan calls
  \<^verbatim>\<open>stopScanner\<close> and then \<^verbatim>\<open>showOrderScan\<close>, whose \<^verbatim>\<open>startScanner\<close> sets the
  one flag again, while the handler of the part scan stays registered. A detection of
  \<^verbatim>\<open>PART002\<close> that reaches that handler afterwards, alone or after the handler of the
  order scan has had it, is not discarded: the part is added to \<^verbatim>\<open>scannedParts\<close>
  while the order scan is on the screen.
\<close>

theorem detection_after_stop_of_part_scan_is_processed:
  "screen partScanApp = PartScanScreen
   \<and> scannedParts partScanApp = []
   \<and> \<not> quaggaActive (stopScanner partScanApp)
   \<and> step exampleJson CancelPartsBtn partScanApp = showOrderScan (stopScanner partScanApp)
   \<and> screen (step exampleJson CancelPartsBtn partScanApp) = OrderScanScreen
   \<and> quaggaActive (step exampleJson CancelPartsBtn partScanApp)
   \<and> subscribed (step exampleJson CancelPartsBtn partScanApp)
       = [OrderCallback, PartCallback, OrderCallback]
   \<and> scannedParts (run exampleJson
        [CancelPartsBtn, Detected PartCallback (Some ''PART002'')] partScanApp)
       = [''PART002'']
   \<and> scannedParts (run exampleJson
        [CancelPartsBtn, Detected OrderCallback (Some ''PART002''),
         Detected PartCallback (Some ''PART002'')] partScanApp)
       = [''PART002'']
   \<and> screen (run exampleJson
        [CancelPartsBtn, Detected OrderCallback (Some ''PART002''),
         Detected PartCallback (Some ''PART002'')] partScanApp)
       = OrderScanScreen"
  by (simp add: example_evals handler_defs)

subsection \<open>Cancelling a scan, selecting an order\<close>

lemma find_None_iff_set: "(find P xs = None) = (\<forall>x\<in>set xs. \<not> P x)"
  by (induction xs) auto

text \<open>
  Claim C4, as the script has it. The cancel button of the part scan shows the order scan
  and leaves \<^verbatim>\<open>state.scannedParts\<close> and \<^verbatim>\<open>state.currentOrder\<close> as they are. It
  calls \<^verbatim>\<open>stopScanner\<close> and then \<^verbatim>\<open>showOrderScan\<close>, which starts the scanner for
  order codes: with a camera the flag is set again and one more handler is registered,
  none being removed; without a camera the flag stays clear and the console is warned.
  Nothing else changes. The scan progress is reset when an order is selected:
  \<^verbatim>\<open>handleOrderDetected\<close>, on an order it finds and that is not packed, makes it the
  current order and empties \<^verbatim>\<open>scannedParts\<close>.
\<close>

theorem cancel_keeps_progress_select_resets:
  "(screen s = PartScanScreen \<longrightarrow>
      step J CancelPartsBtn s = showOrderScan (stopScanner s)
    \<and> step J CancelPartsBtn s =
        (if cameraOK s
         then s\<lparr>quaggaActive := True, subscribed := subscribed s @ [OrderCallback],
                screen := OrderScanScreen\<rparr>
         else s\<lparr>quaggaActive := False, screen := OrderScanScreen,
                console := console s @ [CameraUnavailableWarning]\<rparr>)
    \<and> screen (step J CancelPartsBtn s) = OrderScanScreen
    \<and> scannedParts (step J CancelPartsBtn s) = scannedParts s
    \<and> currentOrder (step J CancelPartsBtn s) = currentOrder s
    \<and> quaggaActive (step J CancelPartsBtn s) = cameraOK s)
   \<and> (find (\<lambda>a. orderId (heap s' a) = oid) (db s') = Some a \<and> status (heap s' a) \<noteq> Packed \<longrightarrow>
      currentOrder (handleOrderDetected oid s') = Some a
    \<and> scannedParts (handleOrderDetected oid s') = []
    \<and> screen (handleOrderDetected oid s') = PartScanScreen)"
  by (simp add: cancelPartsBtn_click_def showOrderScan_def stopScanner_def startScanner_def
      handleOrderDetected_def showPartScan_def)

theorem cancel_keeps_progress_select_resets_witness:
  "screen onePartApp = PartScanScreen
   \<and> cameraOK onePartApp
   \<and> scannedParts onePartApp = [''PART001'']
   \<and> screen cancelledApp = OrderScanScreen
   \<and> scannedParts cancelledApp = [''PART001'']
   \<and> currentOrder cancelledApp = Some 0
   \<and> quaggaActive cancelledApp
   \<and> subscribed cancelledApp = [OrderCallback, PartCallback, OrderCallback]
   \<and> find (\<lambda>a. orderId (heap cancelledApp a) = ''ORDER001'') (db cancelledApp) = Some 0
   \<and> status (heap cancelledApp 0) \<noteq> Packed
   \<and> scannedParts (handleOrderDetected ''ORDER001'' cancelledApp) = []
   \<and> currentOrder (handleOrderDetected ''ORDER001'' cancelledApp) = Some 0
   \<and> screen (handleOrderDetected ''ORDER001'' cancelledApp) = PartScanScreen"
proof -
  have x: "onePartApp = partScanApp\<lparr>scannedParts := [''PART001'']\<rparr>"
    by (simp add: onePartApp_def example_evals handler_defs)
  have a: "screen onePartApp = PartScanScreen \<and> cameraOK onePartApp
           \<and> scannedParts onePartApp = [''PART001''] \<and> currentOrder onePartApp = Some 0
           \<and> subscribed onePartApp = [OrderCallback, PartCallback]"
    by (simp add: x example_evals)
  have y: "db cancelledApp = [0] \<and> heap cancelledApp 0 = hd sampleOrders"
    by (simp add: cancelledApp_def x example_evals handler_defs)
  have b: "find (\<lambda>a. orderId (heap cancelledApp a) = ''ORDER001'') (db cancelledApp) = Some 0
           \<and> status (heap cancelledApp 0) \<noteq> Packed"
    by (simp add: y sampleOrders_def)
  note c = cancel_keeps_progress_select_resets
      [of onePartApp exampleJson cancelledApp "''ORDER001''" 0, folded cancelledApp_def]
  from c a have e: "cancelledApp = onePartApp\<lparr>quaggaActive := True,
      subscribed := subscribed onePartApp @ [OrderCallback], screen := OrderScanScreen\<rparr>"
    by simp
  have s: "subscribed cancelledApp = [OrderCallback, PartCallback, OrderCallback]"
    by (subst e) (simp add: a)
  from a b c s show ?thesis
    by simp
qed

text \<open>The claim as the specification words it fails: after \<^verbatim>\<open>ORDER001\<close> is selected
  and \<^verbatim>\<open>PART001\<close> entered, the cancel button leaves the scanned part and the current
  order in the state.\<close>

theorem cancel_does_not_discard_progress:
  "screen (step exampleJson (ManualPartBtn ''PART001'') partScanApp) = PartScanScreen
   \<and> screen (run exampleJson [ManualPartBtn ''PART001'', CancelPartsBtn] partScanApp)
       = OrderScanScreen
   \<and> scannedParts (run exampleJson [ManualPartBtn ''PART001'', CancelPartsBtn] partScanApp)
       = [''PART001'']
   \<and> scannedParts (run exampleJson [ManualPartBtn ''PART001'', CancelPartsBtn] partScanApp)
       \<noteq> []
   \<and> currentOrder (run exampleJson [ManualPartBtn ''PART001'', CancelPartsBtn] partScanApp)
       = Some 0
   \<and> currentOrder (run exampleJson [ManualPartBtn ''PART001'', CancelPartsBtn] partScanApp)
       \<noteq> None"
  by (simp add: example_evals handler_defs)

subsection \<open>Looking an order up\<close>

lemma alerts_showOrderScan: "alerts (showOrderScan s) = alerts s"
  by (simp add: showOrderScan_def startScanner_def)

lemma order_not_found:
  assumes "\<forall>a\<in>set (db s). orderId (heap s a) \<noteq> oid"
  shows "handleOrderDetected oid s
           = showOrderScan (s\<lparr>alerts := alerts s @ [OrderNotFound oid]\<rparr>)"
proof -
  from assms have "find (\<lambda>a. orderId (heap s a) = oid) (db s) = None"
    by (simp add: find_None_iff_set)
  then show ?thesis
    by (simp add: handleOrderDetected_def)
qed

lemma order_found_alerts:
  assumes "\<exists>a\<in>set (db s). orderId (heap s a) = oid"
  shows "alerts (handleOrderDetected oid s) \<noteq> alerts s @ [OrderNotFound oid]"
proof -
  from assms obtain a where f: "find (\<lambda>a. orderId (heap s a) = oid) (db s) = Some a"
    by (cases "find (\<lambda>a. orderId (heap s a) = oid) (db s)") (auto simp: find_None_iff_set)
  show ?thesis
  proof (cases "status (heap s a) = Packed")
    case True
    with f show ?thesis
      by (simp add: handleOrderDetected_def alerts_showOrderScan)
  next
    case False
    with f show ?thesis
      by (simp add: handleOrderDetected_def showPartScan_def startScanner_def)
  qed
qed

text \<open>
  Claim C5, as the script has it. A manual entry that is not empty after trimming is
  looked up by its trimmed value; a manual entry that is empty after trimming raises the
  alert that asks for an order number and nothing is looked up. A code decoded by the
  scanner that has no white space around it is looked up as it is. The lookup,
  \<^verbatim>\<open>handleOrderDetected\<close>, compares the code with the \<^verbatim>\<open>orderId\<close> of every order of
  the database by equality; when no order has it, it raises the alert that the order was
  not found, shows the order scan again and leaves the current order and the scanned parts
  alone; when some order has it, that alert is not raised.
\<close>

theorem order_lookup_after_trim:
  "(trim v \<noteq> [] \<longrightarrow>
      manualOrderBtn_click v s = handleOrderDetected (trim v) (stopScanner s))
   \<and> (trim v = [] \<longrightarrow>
      manualOrderBtn_click v s = s\<lparr>alerts := alerts s @ [EnterOrderNumber]\<rparr>)
   \<and> (quaggaActive s \<and> code \<noteq> [] \<and> trim code = code \<longrightarrow>
      detectedHandler OrderCallback (Some code) s
        = handleOrderDetected (trim code) (s\<lparr>quaggaActive := False\<rparr>))
   \<and> ((\<forall>a\<in>set (db s). orderId (heap s a) \<noteq> oid) \<longrightarrow>
      alerts (handleOrderDetected oid s) = alerts s @ [OrderNotFound oid]
    \<and> screen (handleOrderDetected oid s) = OrderScanScreen
    \<and> currentOrder (handleOrderDetected oid s) = currentOrder s
    \<and> scannedParts (handleOrderDetected oid s) = scannedParts s)
   \<and> ((\<exists>a\<in>set (db s). orderId (heap s a) = oid) \<longrightarrow>
      alerts (handleOrderDetected oid s) \<noteq> alerts s @ [OrderNotFound oid])"
proof (intro conjI impI)
  assume "trim v \<noteq> []"
  then show "manualOrderBtn_click v s = handleOrderDetected (trim v) (stopScanner s)"
    by (simp add: manualOrderBtn_click_def)
next
  assume "trim v = []"
  then show "manualOrderBtn_click v s = s\<lparr>alerts := alerts s @ [EnterOrderNumber]\<rparr>"
    by (simp add: manualOrderBtn_click_def)
next
  assume "quaggaActive s \<and> code \<noteq> [] \<and> trim code = code"
  then show "detectedHandler OrderCallback (Some code) s
        = handleOrderDetected (trim code) (s\<lparr>quaggaActive := False\<rparr>)"
    by (simp add: detectedHandler_def runCallback_def)
next
  assume n: "\<forall>a\<in>set (db s). orderId (heap s a) \<noteq> oid"
  show "alerts (handleOrderDetected oid s) = alerts s @ [OrderNotFound oid]"
    and "screen (handleOrderDetected oid s) = OrderScanScreen"
    and "currentOrder (handleOrderDetected oid s) = currentOrder s"
    and "scannedParts (handleOrderDetected oid s) = scannedParts s"
    by (simp_all add: order_not_found [OF n] showOrderScan_def startScanner_def)
next
  assume "\<exists>a\<in>set (db s). orderId (heap s a) = oid"
  then show "alerts (handleOrderDetected oid s) \<noteq> alerts s @ [OrderNotFound oid]"
    by (rule order_found_alerts)
qed

theorem order_lookup_after_trim_witness:
  "trim ('' ORDER001'' @ [CHR 0xC2, CHR 0xA0]) = ''ORDER001''
   \<and> manualOrderBtn_click ('' ORDER001'' @ [CHR 0xC2, CHR 0xA0]) orderScanApp
       = handleOrderDetected ''ORDER001'' (stopScanner orderScanApp)
   \<and> trim ''   '' = []
   \<and> manualOrderBtn_click ''   '' orderScanApp
       = orderScanApp\<lparr>alerts := alerts orderScanApp @ [EnterOrderNumber]\<rparr>
   \<and> quaggaActive orderScanApp
   \<and> trim ''ORDER001'' = ''ORDER001''
   \<and> detectedHandler OrderCallback (Some ''ORDER001'') orderScanApp
       = handleOrderDetected ''ORDER001'' (orderScanApp\<lparr>quaggaActive := False\<rparr>)
   \<and> db orderScanApp = [0]
   \<and> orderId (heap orderScanApp 0) = ''ORDER001''
   \<and> alerts (handleOrderDetected ''ORDER999'' orderScanApp) = [OrderNotFound ''ORDER999'']
   \<and> screen (handleOrderDetected ''ORDER999'' orderScanApp) = OrderScanScreen
   \<and> alerts (handleOrderDetected ''ORDER001'' orderScanApp) \<noteq> [OrderNotFound ''ORDER001'']"
proof -
  have t1: "trim ('' ORDER001'' @ [CHR 0xC2, CHR 0xA0]) = ''ORDER001''" and t2: "trim ''   '' = []"
    and t3: "trim ''ORDER001'' = ''ORDER001''"
    by (simp_all add: trim_defs)
  have d: "db orderScanApp = [0] \<and> orderId (heap orderScanApp 0) = ''ORDER001''
           \<and> quaggaActive orderScanApp \<and> alerts orderScanApp = []"
    by (simp add: example_evals sampleOrders_def)
  show ?thesis
    using t1 t2 t3 d
      order_lookup_after_trim [of "'' ORDER001'' @ [CHR 0xC2, CHR 0xA0]" orderScanApp "''ORDER001''" "''ORDER999''"]
      order_lookup_after_trim [of "''   ''" orderScanApp "''ORDER001''" "''ORDER001''"]
    by simp
qed

text \<open>The claim as the specification words it fails on a manual entry of blanks: no order
  has the empty id, yet the alert is the one that asks for an order number, not the one
  that says the order was not found.\<close>

theorem blank_order_entry_is_not_a_lookup:
  "screen orderScanApp = OrderScanScreen
   \<and> find (\<lambda>a. orderId (heap orderScanApp a) = trim ''   '') (db orderScanApp) = None
   \<and> alerts (step exampleJson (ManualOrderBtn ''   '') orderScanApp)
       = alerts orderScanApp @ [EnterOrderNumber]
   \<and> alerts (step exampleJson (ManualOrderBtn ''   '') orderScanApp)
       \<noteq> alerts orderScanApp @ [OrderNotFound (trim ''   '')]
   \<and> screen (step exampleJson (ManualOrderBtn ''   '') orderScanApp) = OrderScanScreen"
  by (simp add: example_evals handler_defs)

text \<open>The detection handler hands the decoded code to \<^verbatim>\<open>handleOrderDetected\<close> as it
  is, while \<^verbatim>\<open>handlePartDetected\<close> trims what it is given: a decoded order code
  with a blank after it is looked up with the blank, and not found, although the
  trimmed code is the id of an order.\<close>

lemma scanned_order_code_is_not_trimmed:
  "find (\<lambda>a. orderId (heap orderScanApp a) = trim ''ORDER001 '') (db orderScanApp) = Some 0
   \<and> alerts (step exampleJson (Detected OrderCallback (Some ''ORDER001 '')) orderScanApp)
       = [OrderNotFound ''ORDER001 '']
   \<and> screen (step exampleJson (Detected OrderCallback (Some ''ORDER001 '')) orderScanApp)
       = OrderScanScreen"
  by (simp add: example_evals handler_defs)

subsection \<open>Submitting a part twice\<close>

text \<open>
  Claim C6. Let a part code be submitted that is not empty after trimming and belongs to
  the parts of the current order, so that the first submission accepts it (or finds it
  scanned already). A second submission of the same code raises the alert that the part
  was already scanned and changes nothing else; and whatever the code, the second
  submission leaves \<^verbatim>\<open>scannedParts\<close> as the first left it. Both the manual entry and
  the scanner submit through \<^verbatim>\<open>handlePartDetected\<close>.
\<close>

theorem second_submission_of_a_part:
  "scannedParts (handlePartDetected code (handlePartDetected code s))
      = scannedParts (handlePartDetected code s)
   \<and> (trim code \<noteq> [] \<and> currentOrder s = Some a \<and> trim code \<in> set (parts (heap s a)) \<longrightarrow>
       handlePartDetected code (handlePartDetected code s)
         = (handlePartDetected code s)\<lparr>alerts := alerts (handlePartDetected code s)
                                              @ [PartAlreadyScanned (trim code)]\<rparr>)"
  by (auto simp: handlePartDetected_def Let_def showSummary_def stopScanner_def missingParts_def
       split: option.splits)

theorem second_submission_of_a_part_witness:
  "trim '' PART002'' = ''PART002''
   \<and> currentOrder partScanApp = Some 0
   \<and> parts (heap partScanApp 0) = [''PART001'', ''PART002'', ''PART003'']
   \<and> scannedParts (handlePartDetected '' PART002'' partScanApp) = [''PART002'']
   \<and> screen (handlePartDetected '' PART002'' partScanApp) = PartScanScreen
   \<and> scannedParts (handlePartDetected '' PART002'' (handlePartDetected '' PART002'' partScanApp))
       = [''PART002'']
   \<and> alerts (handlePartDetected '' PART002'' (handlePartDetected '' PART002'' partScanApp))
       = [PartAlreadyScanned ''PART002'']"
proof -
  have t: "trim '' PART002'' = ''PART002''"
    by (simp add: trim_defs)
  have c: "currentOrder partScanApp = Some 0
           \<and> parts (heap partScanApp 0) = [''PART001'', ''PART002'', ''PART003'']"
    by (simp add: example_evals sampleOrders_def)
  have f: "scannedParts (handlePartDetected '' PART002'' partScanApp) = [''PART002'']
           \<and> screen (handlePartDetected '' PART002'' partScanApp) = PartScanScreen
           \<and> alerts (handlePartDetected '' PART002'' partScanApp) = []"
    by (simp add: example_evals handler_defs)
  show ?thesis
    using t c f second_submission_of_a_part [of "'' PART002''" partScanApp 0]
    by simp
qed

text \<open>A code that is no part of the order is outside that claim: it is never accepted, and
  each submission is answered with the alert that the part does not belong to the order.\<close>

lemma foreign_part_refused_each_time:
  "screen partScanApp = PartScanScreen
   \<and> alerts (run exampleJson [ManualPartBtn ''PART999'', ManualPartBtn ''PART999''] partScanApp)
       = [PartNotInOrder ''PART999'', PartNotInOrder ''PART999'']
   \<and> scannedParts (run exampleJson [ManualPartBtn ''PART999'', ManualPartBtn ''PART999'']
        partScanApp) = []"
  by (simp add: example_evals handler_defs)

subsection \<open>An import whose rows are all skipped\<close>

lemma importRows_all_skipped:
  "\<forall>row\<in>set data. resolveRow cols row = None \<Longrightarrow> importRows cols data m = Some m"
  by (induction data) (auto simp: addRow_def)

lemma objectValues_Nil: "objectValues [] = []"
  by (simp add: objectValues_def)

text \<open>
  Claim C10. When the parser hands over rows of which none has an order id and a part id
  that are non-empty after the positional fallback and trimming, the \<^verbatim>\<open>complete\<close>
  callback makes the database one with no orders, whatever it held before, stores that
  empty database, announces the load and shows the home screen.
\<close>

theorem import_of_skipped_rows_empties_database:
  assumes "\<forall>row\<in>set data. resolveRow (findColumns data) row = None"
  shows "db (csvComplete J data s) = []
    \<and> dbValue (csvComplete J data s) = []
    \<and> localStorage (csvComplete J data s) dbKey = Some (stringify J [])
    \<and> alerts (csvComplete J data s) = alerts s @ [DatabaseLoaded]
    \<and> screen (csvComplete J data s) = HomeScreen
    \<and> (0 < pendingParses s \<longrightarrow>
         db (step J (CsvComplete data) s) = []
       \<and> localStorage (step J (CsvComplete data) s) dbKey = Some (stringify J []))"
proof -
  have i: "importRows (findColumns data) data [] = Some []"
    using assms by (rule importRows_all_skipped)
  have c: "csvComplete J data s' =
             showHome ((saveDatabase J (setDb [] s'))
                \<lparr>alerts := alerts (saveDatabase J (setDb [] s')) @ [DatabaseLoaded]\<rparr>)" for s'
    by (simp add: csvComplete_def i objectValues_Nil Let_def)
  show ?thesis
    by (simp add: c showHome_def saveDatabase_def setDb_def dbValue_def)
qed

theorem import_of_skipped_rows_empties_database_witness:
  "resolveRow (findColumns rowsWithoutIds) (rowsWithoutIds ! 0) = None
   \<and> resolveRow (findColumns rowsWithoutIds) (rowsWithoutIds ! 1) = None
   \<and> length rowsWithoutIds = 2
   \<and> dbValue importApp = sampleOrders
   \<and> pendingParses importApp = 1
   \<and> db (step exampleJson (CsvComplete rowsWithoutIds) importApp) = []
   \<and> localStorage (step exampleJson (CsvComplete rowsWithoutIds) importApp) dbKey = Some []"
proof -
  have r: "resolveRow (findColumns rowsWithoutIds) (rowsWithoutIds ! 0) = None
           \<and> resolveRow (findColumns rowsWithoutIds) (rowsWithoutIds ! 1) = None
           \<and> length rowsWithoutIds = 2"
    by (simp add: rowsWithoutIds_def import_defs trim_defs Let_def)
  have a: "\<forall>row\<in>set rowsWithoutIds. resolveRow (findColumns rowsWithoutIds) row = None"
    by (simp add: rowsWithoutIds_def import_defs trim_defs Let_def)
  have p: "dbValue importApp = sampleOrders \<and> pendingParses importApp = 1"
    by (simp add: importApp_eval freshApp_eval dbValue_def sampleOrders_def)
  have e: "stringify exampleJson [] = []"
    by (simp add: exampleJson_def)
  show ?thesis
    using r p e import_of_skipped_rows_empties_database [OF a, of exampleJson importApp]
    by simp
qed

subsection \<open>When the part scan ends\<close>

lemma all_scanned_when_lengths_agree:
  assumes "distinct xs" and "set xs \<subseteq> set ps" and "length xs = length ps"
  shows "set xs = set ps" and "distinct ps"
proof -
  have "card (set ps) \<le> length ps"
    by (rule card_length)
  also have "\<dots> = card (set xs)"
    using assms(1,3) by (simp add: distinct_card)
  finally have le: "card (set ps) \<le> card (set xs)" .
  show eq: "set xs = set ps"
    using assms(2) le by (simp add: card_seteq)
  have "card (set ps) = length ps"
    using eq assms(1,3) by (metis distinct_card)
  then show "distinct ps"
    by (simp add: card_distinct)
qed

text \<open>What the script does: an accepted part ends the scan when the number of scanned
  parts equals the length of the order's part list. For a list with no repeated
  identifier that is the number of distinct identifiers, and then nothing is missing.\<close>

lemma accepted_part_ends_scan_iff:
  assumes "trim code \<noteq> []" and "trim code \<notin> set (scannedParts s)"
    and "currentOrder s = Some a" and "trim code \<in> set (parts (heap s a))"
    and "screen s = PartScanScreen"
  shows "scannedParts (handlePartDetected code s) = scannedParts s @ [trim code]"
    and "(\<exists>d. screen (handlePartDetected code s) = SummaryScreen d)
          \<longleftrightarrow> Suc (length (scannedParts s)) = length (parts (heap s a))"
  using assms
  by (auto simp: handlePartDetected_def Let_def showSummary_def stopScanner_def)

text \<open>With a repeated identifier in the part list, no call of \<^verbatim>\<open>handlePartDetected\<close>
  ends the scan: the scanned parts are distinct parts of the order, so they stay fewer
  than the list is long.\<close>

lemma repeated_part_never_ends_scan:
  assumes "currentOrder s = Some a" and "\<not> distinct (parts (heap s a))"
    and "distinct (scannedParts s)" and "set (scannedParts s) \<subseteq> set (parts (heap s a))"
  shows "screen (handlePartDetected code s) = screen s"
proof (cases "trim code \<noteq> [] \<and> trim code \<notin> set (scannedParts s)
              \<and> trim code \<in> set (parts (heap s a))")
  case False
  with assms(1) show ?thesis
    by (auto simp: handlePartDetected_def Let_def)
next
  case True
  let ?xs = "scannedParts s @ [trim code]"
  have "distinct ?xs" and "set ?xs \<subseteq> set (parts (heap s a))"
    using True assms(3,4) by auto
  then have "length ?xs \<noteq> length (parts (heap s a))"
    using all_scanned_when_lengths_agree(2) assms(2) by blast
  with True assms(1) show ?thesis
    by (simp add: handlePartDetected_def Let_def)
qed

text \<open>
  Claim C1 at an order whose part list repeats an identifier. The file \<open>duplicateRows\<close>
  is imported and its order \<^verbatim>\<open>A\<close>, with the part list \<^verbatim>\<open>[P, P]\<close>, is selected.
  The part \<^verbatim>\<open>P\<close> is accepted: one part is scanned, the order has one distinct part
  identifier and nothing is missing, yet the part scan stays on the screen. A second
  \<^verbatim>\<open>P\<close> is refused as already scanned, so the summary is never shown.
\<close>

theorem repeated_part_order_stays_in_part_scan:
  "currentOrder duplicateApp = Some 1
   \<and> parts (heap duplicateApp 1) = [''P'', ''P'']
   \<and> screen duplicateApp = PartScanScreen
   \<and> scannedParts (step exampleJson (ManualPartBtn ''P'') duplicateApp) = [''P'']
   \<and> card (set (parts (heap (step exampleJson (ManualPartBtn ''P'') duplicateApp) 1))) = 1
   \<and> missingParts (step exampleJson (ManualPartBtn ''P'') duplicateApp) = []
   \<and> screen (step exampleJson (ManualPartBtn ''P'') duplicateApp) = PartScanScreen
   \<and> screen (run exampleJson [ManualPartBtn ''P'', ManualPartBtn ''P''] duplicateApp)
       = PartScanScreen
   \<and> alerts (run exampleJson [ManualPartBtn ''P'', ManualPartBtn ''P''] duplicateApp)
       = [DatabaseLoaded, PartAlreadyScanned ''P'']"
proof -
  have i: "importRows (findColumns duplicateRows) duplicateRows [] =
      Some [(''A'', \<lparr>orderId = ''A'', parts = [''P'', ''P''], customer = Some [],
                     project = Some [], supplyDate = Some [], status = Pending,
                     packedAt = None, packedBy = None\<rparr>)]"
    by (simp add: duplicateRows_def import_defs trim_defs Let_def)
  have v: "objectValues [(''A'', x)] = [x]" for x :: order
    by (simp add: import_defs)
  have d: "duplicateApp =
      importApp\<lparr>db := [1], currentOrder := Some 1, scannedParts := [],
        heap := (heap importApp)(1 := \<lparr>orderId = ''A'', parts = [''P'', ''P''],
                   customer = Some [], project = Some [], supplyDate = Some [],
                   status = Pending, packedAt = None, packedBy = None\<rparr>),
        nextRef := 2, localStorage := (localStorage importApp)(dbKey \<mapsto> ''A-''),
        screen := PartScanScreen, alerts := [DatabaseLoaded], pendingParses := 0,
        quaggaActive := True, subscribed := [OrderCallback, PartCallback]\<rparr>"
    by (simp add: duplicateApp_def csvComplete_def i v importApp_eval freshApp_eval
        handleOrderDetected_def manualOrderBtn_click_def showOrderScan_def showPartScan_def
        startScanner_def stopScanner_def showHome_def saveDatabase_def setDb_def dbValue_def
        sampleOrders_def dbKey_def userKey_def trim_defs Let_def
        exampleJson_def)
  show ?thesis
    by (simp add: d importApp_eval freshApp_eval handlePartDetected_def
        manualPartBtn_click_def missingParts_def trim_defs Let_def)
qed

subsection \<open>The scan progress in every reachable state\<close>

lemma inv_cong:
  "db s' = db s \<Longrightarrow> heap s' = heap s \<Longrightarrow> nextRef s' = nextRef s \<Longrightarrow>
   currentOrder s' = currentOrder s \<Longrightarrow> scannedParts s' = scannedParts s \<Longrightarrow> appInv s' = appInv s"
  by (simp add: appInv_def refsValid_def scanProgressOk_def cong: option.case_cong)

lemma inv_setDb: assumes "appInv s" shows "appInv (setDb os s)"
proof -
  obtain rs n' h' where r: "newObjects os (nextRef s) (heap s) = (rs, n', h')"
    by (cases "newObjects os (nextRef s) (heap s)") auto
  from newObjects_spec [OF r]
  have rs: "rs = [nextRef s..<nextRef s + length os]" and n': "n' = nextRef s + length os"
    and h': "\<forall>a<nextRef s. h' a = heap s a"
    by simp_all
  have e: "setDb os s = s\<lparr>db := rs, heap := h', nextRef := n'\<rparr>"
    by (simp add: setDb_def r)
  have v: "refsValid (setDb os s)"
    using assms by (simp add: e rs n' appInv_def refsValid_def) (meson trans_less_add1)
  have p: "scanProgressOk (setDb os s)"
  proof (cases "currentOrder s")
    case None
    then show ?thesis by (simp add: e scanProgressOk_def)
  next
    case (Some a)
    with assms have "a < nextRef s"
      by (simp add: appInv_def refsValid_def)
    with h' have "h' a = heap s a" by simp
    with Some assms show ?thesis
      by (simp add: e appInv_def scanProgressOk_def)
  qed
  from v p show ?thesis by (simp add: appInv_def)
qed

lemma inv_simple:
  "appInv (showHome s) = appInv s" "appInv (showLogin s) = appInv s" "appInv (showImport s) = appInv s"
  "appInv (showDatabase s) = appInv s" "appInv (showOrderScan s) = appInv s" "appInv (stopScanner s) = appInv s"
  "appInv (startScanner cb s) = appInv s" "appInv (saveDatabase J s) = appInv s"
  "appInv (showPartScan s) = appInv s" "appInv (showSummary s) = appInv s"
  "appInv (csvError msg s) = appInv s" "appInv (loginBtn_click v s) = appInv s" "appInv (logoutBtn_click s) = appInv s"
  by (rule inv_cong; simp add: showHome_def showLogin_def showImport_def showDatabase_def showOrderScan_def
      stopScanner_def startScanner_def saveDatabase_def showPartScan_def showSummary_def csvError_def
      loginBtn_click_def logoutBtn_click_def Let_def split: option.splits)+

lemma inv_upd:
  "appInv (s\<lparr>alerts := x\<rparr>) = appInv s" "appInv (s\<lparr>console := y\<rparr>) = appInv s" "appInv (s\<lparr>pendingParses := n\<rparr>) = appInv s"
  "appInv (s\<lparr>quaggaActive := b\<rparr>) = appInv s" "appInv (s\<lparr>screen := sc\<rparr>) = appInv s"
  by (rule inv_cong; simp)+

lemma find_Some_in: "find P xs = Some a \<Longrightarrow> a \<in> set xs"
  by (induction xs) (auto split: if_splits)

lemma inv_select:
  assumes "appInv s" and "a \<in> set (db s)"
  shows "appInv (s\<lparr>currentOrder := Some a, scannedParts := []\<rparr>)"
  using assms by (simp add: appInv_def refsValid_def scanProgressOk_def)

lemma inv_push:
  assumes "appInv s" and "currentOrder s = Some a" and "p \<in> set (parts (heap s a))"
    and "p \<notin> set (scannedParts s)"
  shows "appInv (s\<lparr>scannedParts := scannedParts s @ [p]\<rparr>)"
  using assms by (simp add: appInv_def refsValid_def scanProgressOk_def)

lemma inv_pack:
  assumes "appInv s" and "currentOrder s = Some a"
  shows "appInv (s\<lparr>heap := (heap s)(a := (heap s a)\<lparr>status := st, packedAt := t, packedBy := u\<rparr>)\<rparr>)"
  using assms by (simp add: appInv_def refsValid_def scanProgressOk_def)

lemma inv_handleOrderDetected: "appInv s \<Longrightarrow> appInv (handleOrderDetected oid s)"
  by (simp add: handleOrderDetected_def inv_simple inv_upd inv_select find_Some_in
      split: option.splits)

lemma inv_handlePartDetected: "appInv s \<Longrightarrow> appInv (handlePartDetected code s)"
  by (simp add: handlePartDetected_def Let_def inv_simple inv_upd inv_push split: option.splits)

lemma inv_markPacked: "appInv s \<Longrightarrow> appInv (markPackedBtn_click J now s)"
  by (simp add: markPackedBtn_click_def Let_def inv_simple inv_upd inv_pack split: option.splits)

lemma inv_csvComplete: "appInv s \<Longrightarrow> appInv (csvComplete J data s)"
  by (auto simp: csvComplete_def Let_def inv_simple inv_upd inv_setDb split: option.splits)

lemma inv_step: "appInv s \<Longrightarrow> appInv (step J e s)"
  by (cases e)
     (auto simp: inv_simple inv_upd inv_setDb inv_handleOrderDetected inv_handlePartDetected
        inv_markPacked inv_csvComplete manualOrderBtn_click_def manualPartBtn_click_def
        cancelBtn_click_def cancelPartsBtn_click_def backBtn_click_def loadSampleBtn_click_def
        detectedHandler_def runCallback_def Let_def split: screen.splits callback.splits)

lemma inv_blank: "appInv (blank store cam)"
  by (simp add: appInv_def refsValid_def scanProgressOk_def blank_def)

lemma inv_loadDatabase: "appInv s \<Longrightarrow> appInv (loadDatabase J s)"
  by (simp add: loadDatabase_def Let_def inv_simple inv_upd inv_setDb split: option.splits)

lemma inv_init: "appInv (init J (blank store cam))"
proof -
  have l: "appInv (loadDatabase J (blank store cam))"
    by (simp add: inv_loadDatabase inv_blank)
  have u: "appInv (s\<lparr>user := x\<rparr>) = appInv s" for s :: app and x
    by (rule inv_cong) simp_all
  show ?thesis
    by (simp add: init_def Let_def inv_simple u l)
qed

lemma reachable_inv: "reachable J s \<Longrightarrow> appInv s"
  by (induction rule: reachable.induct) (simp_all add: inv_init inv_step)

lemma reachable_run: "reachable J s \<Longrightarrow> reachable J (run J es s)"
  by (induction es arbitrary: s) (simp_all add: reachable.reach_step)

text \<open>
  Claim C9. In every state that the application reaches from \<^verbatim>\<open>init\<close> by any events,
  whenever there is a current order, \<^verbatim>\<open>scannedParts\<close> has no repeated identifier, each
  of its elements is among the parts of the current order, and so it is no longer than
  the number of distinct part identifiers of that order.
\<close>

theorem scan_progress_invariant:
  assumes "reachable J s" and "currentOrder s = Some a"
  shows "distinct (scannedParts s)
    \<and> set (scannedParts s) \<subseteq> set (parts (heap s a))
    \<and> length (scannedParts s) \<le> card (set (parts (heap s a)))"
proof -
  from assms have d: "distinct (scannedParts s)"
    and sub: "set (scannedParts s) \<subseteq> set (parts (heap s a))"
    using reachable_inv [OF assms(1)] by (simp_all add: appInv_def scanProgressOk_def)
  have "length (scannedParts s) = card (set (scannedParts s))"
    using d by (simp add: distinct_card)
  also have "\<dots> \<le> card (set (parts (heap s a)))"
    using sub by (simp add: card_mono)
  finally show ?thesis
    using d sub by simp
qed

theorem scan_progress_invariant_witness:
  "reachable exampleJson (step exampleJson (ManualPartBtn ''PART002'') partScanApp)
   \<and> currentOrder (step exampleJson (ManualPartBtn ''PART002'') partScanApp) = Some 0
   \<and> scannedParts (step exampleJson (ManualPartBtn ''PART002'') partScanApp) = [''PART002'']
   \<and> parts (heap (step exampleJson (ManualPartBtn ''PART002'') partScanApp) 0)
       = [''PART001'', ''PART002'', ''PART003'']
   \<and> length (scannedParts (step exampleJson (ManualPartBtn ''PART002'') partScanApp))
       \<le> card (set (parts (heap (step exampleJson (ManualPartBtn ''PART002'') partScanApp) 0)))"
proof -
  have "reachable exampleJson freshApp"
    unfolding freshApp_def by (rule reachable.reach_init)
  then have "reachable exampleJson orderScanApp"
    unfolding orderScanApp_def by (rule reachable_run)
  then have "reachable exampleJson partScanApp"
    unfolding partScanApp_def by (rule reachable.reach_step)
  then have r: "reachable exampleJson (step exampleJson (ManualPartBtn ''PART002'') partScanApp)"
    by (rule reachable.reach_step)
  have e: "currentOrder (step exampleJson (ManualPartBtn ''PART002'') partScanApp) = Some 0
      \<and> scannedParts (step exampleJson (ManualPartBtn ''PART002'') partScanApp) = [''PART002'']
      \<and> parts (heap (step exampleJson (ManualPartBtn ''PART002'') partScanApp) 0)
          = [''PART001'', ''PART002'', ''PART003'']"
    by (simp add: example_evals handler_defs)
  then have c: "currentOrder (step exampleJson (ManualPartBtn ''PART002'') partScanApp) = Some 0"
    by simp
  show ?thesis
    using r e scan_progress_invariant [OF r c] by simp
qed

subsection \<open>Packing an order\<close>

lemma nothing_missing:
  assumes "distinct xs" and "set xs \<subseteq> set ps" and "length xs = length ps"
  shows "filter (\<lambda>p. p \<notin> set xs) ps = []"
  using all_scanned_when_lengths_agree(1) [OF assms] by (simp add: filter_empty_conv)

lemma handlePartDetected_cases:
  assumes "currentOrder s = Some a"
  shows "handlePartDetected code s = s
    \<or> handlePartDetected code s = s\<lparr>alerts := alerts s @ [PartAlreadyScanned (trim code)]\<rparr>
    \<or> handlePartDetected code s = s\<lparr>alerts := alerts s @ [PartNotInOrder (trim code)]\<rparr>
    \<or> (trim code \<notin> set (scannedParts s) \<and> trim code \<in> set (parts (heap s a))
        \<and> Suc (length (scannedParts s)) \<noteq> length (parts (heap s a))
        \<and> handlePartDetected code s = s\<lparr>scannedParts := scannedParts s @ [trim code]\<rparr>)
    \<or> (trim code \<notin> set (scannedParts s) \<and> trim code \<in> set (parts (heap s a))
        \<and> Suc (length (scannedParts s)) = length (parts (heap s a))
        \<and> handlePartDetected code s =
            s\<lparr>scannedParts := scannedParts s @ [trim code], quaggaActive := False,
              screen := SummaryScreen
                 (filter (\<lambda>p. p \<notin> set (scannedParts s @ [trim code])) (parts (heap s a)) \<noteq> [])\<rparr>)"
  using assms
  by (simp add: handlePartDetected_def Let_def showSummary_def stopScanner_def missingParts_def)

lemma summaryOk_handlePartDetected:
  assumes "scanProgressOk s" and "\<And>d. screen s \<noteq> SummaryScreen d"
  shows "summaryOk (handlePartDetected code s)"
proof (cases "currentOrder s")
  case None
  with assms(2) show ?thesis
    by (auto simp: handlePartDetected_def Let_def summaryOk_def)
next
  case (Some a)
  from assms(1) Some have d: "distinct (scannedParts s)"
    and sub: "set (scannedParts s) \<subseteq> set (parts (heap s a))"
    by (simp_all add: scanProgressOk_def)
  from handlePartDetected_cases [OF Some, of code]
  show ?thesis
  proof (elim disjE conjE)
    assume n: "trim code \<notin> set (scannedParts s)" and i: "trim code \<in> set (parts (heap s a))"
      and l: "Suc (length (scannedParts s)) = length (parts (heap s a))"
      and h: "handlePartDetected code s =
            s\<lparr>scannedParts := scannedParts s @ [trim code], quaggaActive := False,
              screen := SummaryScreen
                 (filter (\<lambda>p. p \<notin> set (scannedParts s @ [trim code])) (parts (heap s a)) \<noteq> [])\<rparr>"
    have "filter (\<lambda>p. p \<notin> set (scannedParts s @ [trim code])) (parts (heap s a)) = []"
      using d sub n i l by (intro nothing_missing) auto
    then show ?thesis
      using Some by (simp add: h summaryOk_def missingParts_def)
  qed (use assms(2) in \<open>simp_all add: summaryOk_def\<close>)
qed

lemma summaryOk_not_summary: "(\<And>d. screen s \<noteq> SummaryScreen d) \<Longrightarrow> summaryOk s"
  by (simp add: summaryOk_def)

lemma summaryOk_handleOrderDetected: "summaryOk (handleOrderDetected oid s)"
  by (auto simp: handleOrderDetected_def showOrderScan_def showPartScan_def startScanner_def
      summaryOk_def split: option.splits)

lemma summaryOk_step:
  assumes "summaryOk s" and "appInv s"
  shows "summaryOk (step J e s)"
proof (cases e)
  case (ManualPartBtn v)
  then show ?thesis
    using assms
    by (simp add: manualPartBtn_click_def Let_def summaryOk_handlePartDetected appInv_def)
       (simp add: summaryOk_def)
next
  case (ManualOrderBtn v)
  then show ?thesis
    using assms
    by (simp add: manualOrderBtn_click_def Let_def summaryOk_handleOrderDetected)
       (simp add: summaryOk_def)
next
  case (Detected cb code)
  show ?thesis
  proof (cases "quaggaActive s \<and> cb \<in> set (subscribed s) \<and> truthy code")
    case False
    then have "step J e s = s"
      by (auto simp: Detected detectedHandler_def)
    with assms show ?thesis by simp
  next
    case True
    then have n: "\<And>d. screen s \<noteq> SummaryScreen d"
      using assms(1) by (auto simp: summaryOk_def)
    show ?thesis
    proof (cases cb)
      case OrderCallback
      with True show ?thesis
        by (simp add: Detected detectedHandler_def runCallback_def summaryOk_handleOrderDetected)
    next
      case PartCallback
      have i: "scanProgressOk (s\<lparr>quaggaActive := False\<rparr>)"
        using assms(2) by (simp add: appInv_def scanProgressOk_def split: option.splits)
      have "summaryOk (handlePartDetected (the code) (s\<lparr>quaggaActive := False\<rparr>))"
        using i n by (intro summaryOk_handlePartDetected) simp_all
      with True PartCallback show ?thesis
        by (simp add: Detected detectedHandler_def runCallback_def)
    qed
  qed
next
  case (CsvComplete data)
  then show ?thesis
    using assms(1)
    by (auto simp: csvComplete_def Let_def showHome_def summaryOk_def missingParts_def
        split: option.splits)
next
  case (CsvError msg)
  then show ?thesis
    using assms(1) by (auto simp: csvError_def summaryOk_def missingParts_def)
next
  case (MarkPackedBtn now)
  then show ?thesis
    using assms(1)
    by (auto simp: markPackedBtn_click_def Let_def showHome_def summaryOk_def
        split: screen.splits option.splits)
qed (use assms(1) in \<open>auto simp: summaryOk_def handler_defs split: screen.splits\<close>)

lemma reachable_summaryOk: "reachable J s \<Longrightarrow> summaryOk s"
proof (induction rule: reachable.induct)
  case (reach_init store cam)
  show ?case
    by (rule summaryOk_not_summary) (simp add: init_def Let_def showHome_def showLogin_def)
next
  case (reach_step s e)
  then show ?case
    by (simp add: summaryOk_step reachable_inv)
qed

lemma part_event_keeps_order:
  assumes "isPartEvent e" and "currentOrder s = Some a"
  shows "currentOrder (step J e s) = Some a \<and> db (step J e s) = db s
       \<and> heap (step J e s) = heap s \<and> user (step J e s) = user s"
proof -
  have h: "currentOrder (handlePartDetected c t) = Some a \<and> db (handlePartDetected c t) = db t
       \<and> heap (handlePartDetected c t) = heap t \<and> user (handlePartDetected c t) = user t"
    if "currentOrder t = Some a" for c t
    using handlePartDetected_cases [OF that, of c] by (elim disjE conjE) (simp_all add: that)
  show ?thesis
  proof (cases e)
    case (ManualPartBtn v)
    with assms(2) h [of s "trim v"] show ?thesis
      by (simp add: manualPartBtn_click_def Let_def)
  next
    case (Detected cb code)
    with assms(1) have cb: "cb = PartCallback"
      by (cases cb) simp_all
    from assms(2) h [of "s\<lparr>quaggaActive := False\<rparr>" "the code"] show ?thesis
      by (simp add: Detected cb detectedHandler_def runCallback_def)
  qed (use assms(1) in simp_all)
qed

lemma part_events_keep_order:
  assumes "list_all isPartEvent es" and "currentOrder s = Some a"
  shows "currentOrder (run J es s) = Some a \<and> db (run J es s) = db s
       \<and> heap (run J es s) = heap s \<and> user (run J es s) = user s"
  using assms
proof (induction es arbitrary: s)
  case Nil
  then show ?case by simp
next
  case (Cons e es)
  from Cons.prems have e: "isPartEvent e" and es: "list_all isPartEvent es"
    by simp_all
  note k = part_event_keeps_order [OF e Cons.prems(2), of J]
  from Cons.IH [OF es, of "step J e s"] k show ?case
    by simp
qed

lemma summaryOk_run:
  assumes "summaryOk s" and "appInv s"
  shows "summaryOk (run J es s) \<and> appInv (run J es s)"
  using assms
  by (induction es arbitrary: s) (simp_all add: summaryOk_step inv_step)

lemma find_Some_holds: "find P xs = Some a \<Longrightarrow> P a"
  by (induction xs) (auto split: if_splits)

lemma find_cong_set: "(\<And>x. x \<in> set xs \<Longrightarrow> P x = Q x) \<Longrightarrow> find P xs = find Q xs"
  by (induction xs) auto

lemma scanProgressOk_handlePartDetected:
  assumes "scanProgressOk s"
  shows "scanProgressOk (handlePartDetected code s)"
proof (cases "currentOrder s")
  case None
  then show ?thesis
    by (simp add: handlePartDetected_def Let_def scanProgressOk_def)
next
  case (Some a)
  from handlePartDetected_cases [OF Some, of code] assms Some show ?thesis
    by (elim disjE conjE) (simp_all add: scanProgressOk_def)
qed

lemma part_event_ok:
  assumes "isPartEvent e" and "scanProgressOk s" and "summaryOk s"
  shows "scanProgressOk (step J e s) \<and> summaryOk (step J e s)"
proof (cases e)
  case (ManualPartBtn v)
  show ?thesis
  proof (cases "screen s = PartScanScreen \<and> trim v \<noteq> []")
    case True
    with assms(2) show ?thesis
      by (simp add: ManualPartBtn manualPartBtn_click_def Let_def
          scanProgressOk_handlePartDetected summaryOk_handlePartDetected)
  next
    case False
    with assms(2,3) show ?thesis
      by (auto simp: ManualPartBtn manualPartBtn_click_def Let_def scanProgressOk_def
          summaryOk_def split: option.splits)
  qed
next
  case (Detected cb code)
  with assms(1) have cb: "cb = PartCallback"
    by (cases cb) simp_all
  show ?thesis
  proof (cases "quaggaActive s \<and> cb \<in> set (subscribed s) \<and> truthy code")
    case False
    then have "step J e s = s"
      by (auto simp: Detected detectedHandler_def)
    with assms show ?thesis by simp
  next
    case True
    then have n: "\<And>d. screen s \<noteq> SummaryScreen d"
      using assms(3) by (auto simp: summaryOk_def)
    have i: "scanProgressOk (s\<lparr>quaggaActive := False\<rparr>)"
      using assms(2) by (simp add: scanProgressOk_def split: option.splits)
    have "summaryOk (handlePartDetected (the code) (s\<lparr>quaggaActive := False\<rparr>))"
      using i n by (intro summaryOk_handlePartDetected) simp_all
    moreover have "scanProgressOk (handlePartDetected (the code) (s\<lparr>quaggaActive := False\<rparr>))"
      using i by (rule scanProgressOk_handlePartDetected)
    ultimately show ?thesis
      using True by (simp add: Detected cb detectedHandler_def runCallback_def)
  qed
qed (use assms(1) in simp_all)

lemma part_events_ok:
  assumes "list_all isPartEvent es" and "scanProgressOk s" and "summaryOk s"
  shows "scanProgressOk (run J es s) \<and> summaryOk (run J es s)"
  using assms
proof (induction es arbitrary: s)
  case Nil
  then show ?case by simp
next
  case (Cons e es)
  from Cons.prems have e: "isPartEvent e" and es: "list_all isPartEvent es"
    by simp_all
  from part_event_ok [OF e Cons.prems(2,3), of J] Cons.IH [OF es, of "step J e s"]
  show ?case by simp
qed

lemma screen_showOrderScan: "screen (showOrderScan s) = OrderScanScreen"
  by (simp add: showOrderScan_def startScanner_def)

text \<open>
  The path the specification describes. Let an order be selected by its id, let any part
  codes be submitted, by hand or by the scanner, and let the summary be on the screen.
  Then the button that marks the order as packed is enabled and no part is missing; a
  disabled button of a summary does nothing. After the click the current order, which is
  the order of the database with the selected id, has the status packed, the given time
  stamp and the logged-in user; the database holds the same orders and is stored as it now
  is; the home screen is shown. Submitting the same order id again raises the alert that
  the order is already packed and shows the order scan.
\<close>

lemma commitPack_contract:
  assumes sel: "screen (handleOrderDetected oid s0) = PartScanScreen"
    and ev: "list_all isPartEvent es"
    and s2: "s2 = run J es (handleOrderDetected oid s0)"
    and fin: "screen s2 = SummaryScreen disabled"
    and s3: "s3 = step J (MarkPackedBtn now) s2"
  shows "\<not> disabled \<and> missingParts s2 = []
    \<and> (\<exists>a. currentOrder s2 = Some a \<and> a \<in> set (db s2) \<and> orderId (heap s2 a) = oid
          \<and> status (heap s3 a) = Packed \<and> packedAt (heap s3 a) = Some now
          \<and> packedBy (heap s3 a) = user s2)
    \<and> db s3 = db s2
    \<and> localStorage s3 dbKey = Some (stringify J (dbValue s3))
    \<and> screen s3 = HomeScreen
    \<and> alerts (handleOrderDetected oid s3) = alerts s3 @ [OrderAlreadyPacked]
    \<and> screen (handleOrderDetected oid s3) = OrderScanScreen
    \<and> (\<forall>t. screen t = SummaryScreen True \<longrightarrow> step J (MarkPackedBtn now) t = t)"
proof -
  let ?s1 = "handleOrderDetected oid s0"
  obtain a where f: "find (\<lambda>a. orderId (heap s0 a) = oid) (db s0) = Some a"
    using sel
    by (cases "find (\<lambda>a. orderId (heap s0 a) = oid) (db s0)")
       (auto simp: handleOrderDetected_def screen_showOrderScan)
  have s1: "?s1 = showPartScan (s0\<lparr>currentOrder := Some a, scannedParts := []\<rparr>)"
    using sel f by (auto simp: handleOrderDetected_def screen_showOrderScan split: if_splits)
  have c1: "currentOrder ?s1 = Some a" and d1: "db ?s1 = db s0" and h1: "heap ?s1 = heap s0"
    and u1: "user ?s1 = user s0" and p1: "scanProgressOk ?s1" and o1: "summaryOk ?s1"
    by (simp_all add: s1 showPartScan_def startScanner_def scanProgressOk_def summaryOk_def)
  from part_events_keep_order [OF ev c1, of J]
  have c2: "currentOrder s2 = Some a" and d2: "db s2 = db s0" and h2: "heap s2 = heap s0"
    by (simp_all add: s2 d1 h1)
  from part_events_ok [OF ev p1 o1, of J] have o2: "summaryOk s2"
    by (simp add: s2)
  with fin have nd: "\<not> disabled" and m: "missingParts s2 = []"
    by (simp_all add: summaryOk_def)
  have ain: "a \<in> set (db s2)" and aid: "orderId (heap s2 a) = oid"
    using f find_Some_in [OF f] find_Some_holds [OF f] by (simp_all add: d2 h2)
  have e3: "s3 = markPackedBtn_click J now s2"
    using fin nd by (simp add: s3)
  let ?h3 = "(heap s2)(a := (heap s2 a)\<lparr>status := Packed, packedAt := Some now, packedBy := user s2\<rparr>)"
  have hp3: "heap s3 = ?h3" and d3: "db s3 = db s2"
    and l3: "localStorage s3 dbKey = Some (stringify J (dbValue s3))"
    and sc3: "screen s3 = HomeScreen"
    by (simp_all add: e3 markPackedBtn_click_def c2 Let_def saveDatabase_def showHome_def
        dbValue_def)
  have "find (\<lambda>b. orderId (heap s3 b) = oid) (db s3) = find (\<lambda>b. orderId (heap s0 b) = oid) (db s0)"
    unfolding d3 d2 by (rule find_cong_set) (simp add: hp3 h2)
  with f have f3: "find (\<lambda>b. orderId (heap s3 b) = oid) (db s3) = Some a"
    by simp
  have st3: "status (heap s3 a) = Packed"
    by (simp add: hp3)
  have r3: "handleOrderDetected oid s3 = showOrderScan (s3\<lparr>alerts := alerts s3 @ [OrderAlreadyPacked]\<rparr>)"
    by (simp add: handleOrderDetected_def f3 st3)
  have g: "\<forall>t. screen t = SummaryScreen True \<longrightarrow> step J (MarkPackedBtn now) t = t"
    by simp
  show ?thesis
    using nd m c2 ain aid d3 l3 sc3 g
    by (simp add: hp3 r3 showOrderScan_def startScanner_def)
qed

lemma commitPack_scenario:
  "screen (handleOrderDetected ''ORDER001'' (stopScanner orderScanApp)) = PartScanScreen
   \<and> list_all isPartEvent packEvents
   \<and> screen summaryApp = SummaryScreen False
   \<and> missingParts summaryApp = []
   \<and> status (heap packedApp 0) = Packed
   \<and> packedAt (heap packedApp 0) = Some ''2026-01-01T08:00:00.000Z''
   \<and> packedBy (heap packedApp 0) = Some ''Dana''
   \<and> localStorage packedApp dbKey = Some ''ORDER001+''
   \<and> screen packedApp = HomeScreen
   \<and> alerts (handleOrderDetected ''ORDER001'' packedApp)
       = [OrderMarkedPacked, OrderAlreadyPacked]
   \<and> screen (handleOrderDetected ''ORDER001'' packedApp) = OrderScanScreen"
proof -
  have p: "partScanApp = handleOrderDetected ''ORDER001'' (stopScanner orderScanApp)"
    by (simp add: partScanApp_def orderScanApp_eval freshApp_eval manualOrderBtn_click_def
        trim_defs)
  have sel: "screen (handleOrderDetected ''ORDER001'' (stopScanner orderScanApp))
               = PartScanScreen"
    unfolding p [symmetric] by (simp add: partScanApp_eval)
  have ev: "list_all isPartEvent packEvents"
    by (simp add: packEvents_def)
  have s2: "summaryApp
      = run exampleJson packEvents (handleOrderDetected ''ORDER001'' (stopScanner orderScanApp))"
    unfolding p [symmetric] by (simp add: summaryApp_def)
  have fin: "screen summaryApp = SummaryScreen False"
    by (simp add: summaryApp_eval)
  have s3: "packedApp = step exampleJson (MarkPackedBtn ''2026-01-01T08:00:00.000Z'') summaryApp"
    by (simp add: packedApp_def)
  have u: "user summaryApp = Some ''Dana'' \<and> currentOrder summaryApp = Some 0
           \<and> alerts summaryApp = []"
    by (simp add: summaryApp_eval example_evals)
  have a3: "alerts packedApp = [OrderMarkedPacked]"
    and v3: "dbValue packedApp = [(hd sampleOrders)\<lparr>status := Packed,
               packedAt := Some ''2026-01-01T08:00:00.000Z'', packedBy := Some ''Dana''\<rparr>]"
    by (simp_all add: packedApp_def summaryApp_eval example_evals markPackedBtn_click_def
        saveDatabase_def showHome_def dbValue_def Let_def)
  have j: "stringify exampleJson (dbValue packedApp) = ''ORDER001+''"
    by (simp add: v3 exampleJson_def sampleOrders_def)
  show ?thesis
    using sel ev fin u a3 j commitPack_contract [OF sel ev s2 fin s3]
    by auto
qed

text \<open>In every reachable state that shows the summary, whatever events led to it, the
  button is enabled and no part of the current order is missing.\<close>

lemma reachable_summary_enabled:
  assumes "reachable J s" and "screen s = SummaryScreen disabled"
  shows "\<not> disabled \<and> missingParts s = []"
  using reachable_summaryOk [OF assms(1)] assms(2) by (simp add: summaryOk_def)

lemma staleSummaryApp_reachable: "reachable exampleJson staleSummaryApp"
proof -
  have "reachable exampleJson freshApp"
    unfolding freshApp_def by (rule reachable.reach_init)
  then have "reachable exampleJson orderScanApp"
    unfolding orderScanApp_def by (rule reachable_run)
  then have "reachable exampleJson partScanApp"
    unfolding partScanApp_def by (rule reachable.reach_step)
  then show ?thesis
    unfolding staleSummaryApp_def by (rule reachable_run)
qed

lemma staleSummaryApp_eval:
  "staleSummaryApp =
     partScanApp\<lparr>db := [1], scannedParts := [''PART001'', ''PART002'', ''PART003''],
       heap := (heap partScanApp)(1 := hd sampleOrders), nextRef := 2,
       localStorage := (localStorage partScanApp)(dbKey \<mapsto> ''ORDER001-''),
       quaggaActive := False,
       subscribed := [OrderCallback, PartCallback, OrderCallback, OrderCallback,
                      OrderCallback],
       screen := SummaryScreen False,
       alerts := [SampleLoaded, OrderNotFound ''PART003'']\<rparr>"
  by (simp add: staleSummaryApp_def staleEvents_def example_evals handler_defs)

text \<open>
  Claim C3 at a summary reached through the handler of a cancelled part scan, after the
  events \<open>staleEvents\<close>. The current order is still the order object selected before the
  cancel, with all three parts scanned, so the summary shows with its button enabled;
  the database meanwhile holds the newly loaded sample, another object with the same id.
  The click marks the old object as packed, by Dana, and stores the database, whose order
  \<^verbatim>\<open>ORDER001\<close> is still pending. Submitting \<^verbatim>\<open>ORDER001\<close> again then raises no alert
  that the order is already packed: the order is selected and the part scan opens.
\<close>

theorem commit_through_stale_part_handler:
  "screen staleSummaryApp = SummaryScreen False
   \<and> missingParts staleSummaryApp = []
   \<and> currentOrder staleSummaryApp = Some 0
   \<and> orderId (heap staleSummaryApp 0) = ''ORDER001''
   \<and> db staleSummaryApp = [1]
   \<and> status (heap stalePackedApp 0) = Packed
   \<and> packedAt (heap stalePackedApp 0) = Some ''2026-01-01T08:00:00.000Z''
   \<and> packedBy (heap stalePackedApp 0) = Some ''Dana''
   \<and> user stalePackedApp = Some ''Dana''
   \<and> dbValue stalePackedApp = sampleOrders
   \<and> localStorage stalePackedApp dbKey = Some ''ORDER001-''
   \<and> screen stalePackedApp = HomeScreen
   \<and> alerts (run exampleJson [ScanOrderBtn, ManualOrderBtn ''ORDER001''] stalePackedApp)
       = [SampleLoaded, OrderNotFound ''PART003'', OrderMarkedPacked]
   \<and> screen (run exampleJson [ScanOrderBtn, ManualOrderBtn ''ORDER001''] stalePackedApp)
       = PartScanScreen
   \<and> currentOrder (run exampleJson [ScanOrderBtn, ManualOrderBtn ''ORDER001''] stalePackedApp)
       = Some 1"
  by (simp add: stalePackedApp_def staleSummaryApp_eval example_evals handler_defs)

end
